theory Spec2Isabelle
  imports Complex_Main "HOL-Library.Sublist" "HOL-Library.Multiset" "HOL-Library.Product_Lexorder"
begin

section \<open>Text primitives of the Python runtime\<close>

text \<open>
  For the scoring engine and the merges, Python strings are modelled as \<open>string\<close>
  (lists of 8-bit characters) and the text operations as their ASCII versions; Unicode
  case mapping and Unicode white space are outside this part of the model. The amount
  parser, which depends on single characters and on floating point, has its own model of
  text further down.
\<close>

definition lower_char :: "char \<Rightarrow> char" where
  "lower_char c =
     (let n = (of_char c :: nat) in if 65 \<le> n \<and> n \<le> 90 then char_of (n + 32) else c)"

definition lower :: "string \<Rightarrow> string" where
  \<comment> \<open>\<open>str.lower()\<close>\<close>
  "lower s = map lower_char s"

definition is_space :: "char \<Rightarrow> bool" where
  \<comment> \<open>the ASCII characters for which \<open>str.isspace()\<close> holds\<close>
  "is_space c = (let n = (of_char c :: nat) in (9 \<le> n \<and> n \<le> 13) \<or> (28 \<le> n \<and> n \<le> 32))"

definition strip :: "string \<Rightarrow> string" where
  \<comment> \<open>\<open>str.strip()\<close>\<close>
  "strip s = rev (dropWhile is_space (rev (dropWhile is_space s)))"

fun join_space :: "string list \<Rightarrow> string" where
  \<comment> \<open>\<open>" ".join(parts)\<close>\<close>
  "join_space [] = []"
| "join_space [x] = x"
| "join_space (x # y # ys) = x @ '' '' @ join_space (y # ys)"

definition is_word_char :: "char \<Rightarrow> bool" where
  \<comment> \<open>the class \<open>\w\<close> of the \<open>re\<close> module on ASCII text: letters, digits, underscore\<close>
  "is_word_char c =
     (let n = (of_char c :: nat) in
        (48 \<le> n \<and> n \<le> 57) \<or> (65 \<le> n \<and> n \<le> 90) \<or> (97 \<le> n \<and> n \<le> 122) \<or> n = 95)"

definition word_at :: "string \<Rightarrow> nat \<Rightarrow> bool" where
  "word_at s i = (i < length s \<and> is_word_char (s ! i))"

definition boundary :: "string \<Rightarrow> nat \<Rightarrow> bool" where
  \<comment> \<open>the assertion \<open>\b\<close> at position \<open>i\<close>: exactly one side is a word character;
      outside the string counts as a non-word character\<close>
  "boundary s i = ((0 < i \<and> word_at s (i - 1)) \<noteq> word_at s i)"

definition match_at :: "string \<Rightarrow> string \<Rightarrow> nat \<Rightarrow> bool" where
  \<comment> \<open>the pattern \<open>\b\<close> + \<open>re.escape(pat)\<close> + \<open>\b\<close> matches \<open>s\<close> starting at \<open>i\<close>\<close>
  "match_at pat s i =
     (take (length pat) (drop i s) = pat \<and> boundary s i \<and> boundary s (i + length pat))"

definition search_word :: "string \<Rightarrow> string \<Rightarrow> bool" where
  \<comment> \<open>\<open>re.search(r"\b" + re.escape(pat) + r"\b", s)\<close> finds a match\<close>
  "search_word pat s = list_ex (match_at pat s) [0 ..< Suc (length s)]"

section \<open>scrapers/models.py: the tender record\<close>

type_synonym datetime = int

record tender =
  tender_id :: string
  title :: string
  portal :: string
  department :: string
  location :: string
  budget_min :: "rat option"
  budget_max :: "rat option"
  budget_raw :: string
  published_date :: "datetime option"
  deadline :: "datetime option"
  category :: string
  description :: string
  url :: string
  match_score :: int
  matched_keywords :: "string list"
  budget_in_range :: "bool option"
  location_match :: bool

text \<open>
  The contractor profile is a dict read with \<open>.get\<close> and defaults. The record holds the
  value each \<open>.get\<close> yields: an absent keyword list is \<open>[]\<close>, an absent budget minimum
  is \<open>0\<close>, and an absent budget maximum, \<open>float("inf")\<close> in the source, is \<open>None\<close>.
  Amounts are exact rationals; the rounding of IEEE doubles is not modelled.
\<close>

record profile =
  locations :: "string list"
  work_keywords :: "string list"
  exclude_keywords :: "string list"
  budget_range_min :: rat
  budget_range_max :: "rat option"

section \<open>filters/tender\_filter.py\<close>

definition normalise :: "string \<Rightarrow> string" where
  "normalise text = strip (lower text)"

definition contains_any :: "string \<Rightarrow> string list \<Rightarrow> string list" where
  "contains_any text keywords =
     (let text_lower = normalise text in filter (\<lambda>kw. sublist (lower kw) text_lower) keywords)"

definition contains_any_word :: "string \<Rightarrow> string list \<Rightarrow> string list" where
  "contains_any_word text keywords =
     (let text_lower = normalise text in filter (\<lambda>kw. search_word (lower kw) text_lower) keywords)"

definition le_max :: "rat \<Rightarrow> rat option \<Rightarrow> bool" where
  \<comment> \<open>\<open>x <= max_budget\<close>, where \<open>None\<close> stands for \<open>float("inf")\<close>\<close>
  "le_max x m = (case m of None \<Rightarrow> True | Some y \<Rightarrow> x \<le> y)"

definition score_tender :: "tender \<Rightarrow> profile \<Rightarrow> tender" where
  "score_tender t p =
     (let corpus = join_space [title t, description t, category t, department t];
          exclude_hits = contains_any corpus (exclude_keywords p)
      in if exclude_hits \<noteq> [] then
           t\<lparr>match_score := 0,
             matched_keywords := map (\<lambda>kw. ''EXCLUDED:'' @ kw) exclude_hits\<rparr>
         else
           let work_hits = contains_any corpus (work_keywords p);
               score1 = (if work_hits \<noteq> []
                         then 0 + 40 + min (int (length work_hits) - 1) 4 * 5 else 0);
               kws1 = (if work_hits \<noteq> [] then [] @ work_hits else []);
               location_corpus = join_space [location t, department t, title t];
               location_hits = contains_any_word location_corpus (locations p);
               score2 = (if location_hits \<noteq> [] then score1 + 20 else score1);
               kws2 = (if location_hits \<noteq> []
                       then kws1 @ map (\<lambda>h. ''LOC:'' @ h) location_hits else kws1);
               min_budget = budget_range_min p;
               max_budget = budget_range_max p;
               in_range = (case budget_max t of
                             Some u \<Rightarrow> Some (min_budget \<le> u \<and> le_max u max_budget)
                           | None \<Rightarrow> (case budget_min t of
                                        Some l \<Rightarrow> Some (le_max l max_budget)
                                      | None \<Rightarrow> None));
               score3 = (case budget_max t of
                           Some u \<Rightarrow> if min_budget \<le> u \<and> le_max u max_budget
                                     then score2 + 15 else score2
                         | None \<Rightarrow> (case budget_min t of
                                      Some l \<Rightarrow> if le_max l max_budget then score2 + 8 else score2
                                    | None \<Rightarrow> score2));
               score4 = (if portal t = ''HSL (Hindustan Shipyard)'' \<or> portal t = ''defproc (Defence)''
                         then score3 + 15 else score3);
               score5 = (if work_hits = [] \<and> location_hits = [] then max score4 0 else score4)
           in t\<lparr>location_match := (location_hits \<noteq> []),
                budget_in_range := in_range,
                match_score := min score5 100,
                matched_keywords := kws2\<rparr>)"

definition datetime_max :: datetime where
  \<comment> \<open>\<open>datetime.max\<close>, 9999-12-31 23:59:59.999999, in microseconds since \<open>datetime.min\<close>\<close>
  "datetime_max = 315537897599999999"

definition sort_key_of :: "tender \<Rightarrow> int \<times> datetime" where
  \<comment> \<open>the \<open>key\<close> lambda of \<open>filter_tenders\<close>; tuples compare lexicographically\<close>
  "sort_key_of t =
     (- match_score t, (case deadline t of Some d \<Rightarrow> d | None \<Rightarrow> datetime_max))"

definition filter_tenders :: "tender list \<Rightarrow> profile \<Rightarrow> int \<Rightarrow> tender list" where
  \<comment> \<open>\<open>list.sort\<close> is the stable sort by key\<close>
  "filter_tenders tenders p min_score =
     (let scored = map (\<lambda>t. score_tender t p) tenders;
          filtered = filter (\<lambda>t. min_score \<le> match_score t) scored
      in sort_key sort_key_of filtered)"

section \<open>scrapers/base.py: the rupee amount parser\<close>

text \<open>
  \<open>parse_inr\<close> inspects single characters and calls \<open>float\<close>, so here a text is a
  list of Unicode code points and a Python float is an IEEE 754 double: a finite value,
  held as the exact rational it denotes, or plus infinity (the parser produces no negative
  number and no NaN).

  The operations that depend on the Unicode character database (\<open>str.isspace\<close> behind
  \<open>strip\<close>, \<open>str.isdigit\<close>, \<open>str.lower\<close> and \<open>float\<close> of a text) belong
  to the Python runtime, not to the repository: \<open>parse_inr\<close> takes them as a parameter.
\<close>

type_synonym ustring = "int list"

datatype pyfloat = Finite rat | PosInf

datatype py_error = ValueError

record runtime =
  isspace :: "int \<Rightarrow> bool"
  isdigit :: "int \<Rightarrow> bool"
  str_lower :: "ustring \<Rightarrow> ustring"
  str_float :: "ustring \<Rightarrow> py_error + pyfloat"

subsection \<open>Double precision arithmetic\<close>

function bit_length :: "int \<Rightarrow> int" where
  \<comment> \<open>the number of binary digits of a non-negative integer\<close>
  "bit_length n = (if n \<le> 0 then 0 else 1 + bit_length (n div 2))"
  by pat_completeness auto
termination
  by (relation "measure nat") auto

declare bit_length.simps [simp del]

definition pow2 :: "int \<Rightarrow> rat" where
  "pow2 k = (if 0 \<le> k then 2 ^ nat k else 1 / 2 ^ nat (- k))"

definition floor_log2 :: "rat \<Rightarrow> int" where
  \<comment> \<open>for \<open>x > 0\<close>, the \<open>e\<close> with \<open>2^e \<le> x < 2^(e+1)\<close>: the quotient of a numerator of
      \<open>m\<close> bits by a denominator of \<open>n\<close> bits lies between \<open>2^(m-n-1)\<close> and \<open>2^(m-n+1)\<close>\<close>
  "floor_log2 x =
     (let e = bit_length (fst (quotient_of x)) - bit_length (snd (quotient_of x))
      in if pow2 e \<le> x then e else e - 1)"

definition round_half_even :: "rat \<Rightarrow> int" where
  "round_half_even y =
     (let f = \<lfloor>y\<rfloor>; d = y - of_int f
      in if d < 1 / 2 then f else if 1 / 2 < d then f + 1 else if even f then f else f + 1)"

definition round_double :: "rat \<Rightarrow> pyfloat" where
  \<comment> \<open>the double nearest to a non-negative rational, ties to even: 53 significant bits,
      least exponent -1022 (below it the spacing stays \<open>2^-1074\<close>), infinity once the
      rounded value reaches \<open>2^1024\<close>\<close>
  "round_double x =
     (if x \<le> 0 then Finite 0
      else
        let e = max (floor_log2 x) (- 1022);
            q = pow2 (e - 52);
            r = of_int (round_half_even (x / q)) * q
        in if 1024 \<le> floor_log2 r then PosInf else Finite r)"

definition float_of_int :: "int \<Rightarrow> pyfloat" where
  \<comment> \<open>the conversion of the integer operand of \<open>float * int\<close>\<close>
  "float_of_int k = round_double (of_int k)"

definition float_mul :: "pyfloat \<Rightarrow> pyfloat \<Rightarrow> pyfloat" where
  \<comment> \<open>\<open>x * y\<close> on non-negative doubles, the second operand finite and not zero\<close>
  "float_mul x y =
     (case (x, y) of (Finite a, Finite b) \<Rightarrow> round_double (a * b) | _ \<Rightarrow> PosInf)"

subsection \<open>The parser\<close>

definition ustr :: "string \<Rightarrow> ustring" where
  \<comment> \<open>an ASCII literal as code points\<close>
  "ustr s = map of_char s"

definition rupee :: int where
  \<comment> \<open>the rupee sign, U+20B9\<close>
  "rupee = 8377"

definition ustrip :: "runtime \<Rightarrow> ustring \<Rightarrow> ustring" where
  \<comment> \<open>\<open>str.strip()\<close>\<close>
  "ustrip rt s = rev (dropWhile (isspace rt) (rev (dropWhile (isspace rt) s)))"

function remove_all :: "'a list \<Rightarrow> 'a list \<Rightarrow> 'a list" where
  \<comment> \<open>\<open>s.replace(old, "")\<close>: every non-overlapping occurrence, from the left\<close>
  "remove_all old [] = []"
| "remove_all old (c # cs) =
     (if old \<noteq> [] \<and> prefix old (c # cs)
      then remove_all old (drop (length old) (c # cs))
      else c # remove_all old cs)"
  by pat_completeness auto
termination
  by (relation "measure (\<lambda>(old, s). length s)") auto

definition catch_ValueError :: "py_error + pyfloat option \<Rightarrow> py_error + pyfloat option" where
  \<comment> \<open>\<open>try: ... except ValueError: return None\<close>\<close>
  "catch_ValueError r = (case r of Inl ValueError \<Rightarrow> Inr None | Inr v \<Rightarrow> Inr v)"

definition parse_inr :: "runtime \<Rightarrow> ustring \<Rightarrow> py_error + pyfloat option" where
  \<comment> \<open>46 is the full stop\<close>
  "parse_inr rt text0 =
     (if text0 = [] then Inr None
      else
        let text = ustrip rt (remove_all (ustr ''Rs.'') (remove_all [rupee]
                     (remove_all (ustr '','') (ustrip rt text0))))
        in catch_ValueError
          (if sublist (ustr ''crore'') (str_lower rt text) \<or> sublist (ustr ''cr'') (str_lower rt text) then
             (case str_float rt (filter (\<lambda>c. isdigit rt c \<or> c = 46) text) of
                Inl e \<Rightarrow> Inl e
              | Inr num \<Rightarrow> Inr (Some (float_mul num (float_of_int 10000000))))
           else if sublist (ustr ''lakh'') (str_lower rt text) \<or> sublist (ustr ''lac'') (str_lower rt text) then
             (case str_float rt (filter (\<lambda>c. isdigit rt c \<or> c = 46) text) of
                Inl e \<Rightarrow> Inl e
              | Inr num \<Rightarrow> Inr (Some (float_mul num (float_of_int 100000))))
           else
             (let num_str = filter (\<lambda>c. isdigit rt c \<or> c = 46) text
              in if num_str \<noteq> [] then
                   (case str_float rt num_str of Inl e \<Rightarrow> Inl e | Inr num \<Rightarrow> Inr (Some num))
                 else Inr None)))"

subsection \<open>The runtime on ASCII text\<close>

text \<open>
  On text made of ASCII characters and the rupee sign the runtime is known without the
  character database: the white space and the digits are the ASCII ones, \<open>lower\<close> maps
  \<open>A\<close> to \<open>Z\<close> onto \<open>a\<close> to \<open>z\<close>, and \<open>float\<close> of digits and full stops is the
  correctly rounded decimal, or \<open>ValueError\<close> when the text is not digits with at most
  one full stop and at least one digit. \<open>ascii_faithful\<close> says that a runtime behaves so
  on such text; it says nothing on other text.
\<close>

definition ascii_isspace :: "int \<Rightarrow> bool" where
  "ascii_isspace c = ((9 \<le> c \<and> c \<le> 13) \<or> (28 \<le> c \<and> c \<le> 32))"

definition ascii_isdigit :: "int \<Rightarrow> bool" where
  "ascii_isdigit c = (48 \<le> c \<and> c \<le> 57)"

definition ascii_lower :: "ustring \<Rightarrow> ustring" where
  "ascii_lower s = map (\<lambda>c. if 65 \<le> c \<and> c \<le> 90 then c + 32 else c) s"

definition int_of_digits :: "ustring \<Rightarrow> int" where
  "int_of_digits ds = foldl (\<lambda>a c. 10 * a + (c - 48)) 0 ds"

definition decimal_float :: "ustring \<Rightarrow> py_error + pyfloat" where
  "decimal_float s =
     (let ip = takeWhile ascii_isdigit s; rest = dropWhile ascii_isdigit s
      in if rest = [] then
           (if ip = [] then Inl ValueError else Inr (round_double (of_int (int_of_digits ip))))
         else if hd rest = 46 \<and> list_all ascii_isdigit (tl rest) \<and> (ip \<noteq> [] \<or> tl rest \<noteq> [])
         then Inr (round_double (of_int (int_of_digits ip)
                   + of_int (int_of_digits (tl rest)) / 10 ^ length (tl rest)))
         else Inl ValueError)"

definition ascii_runtime :: runtime where
  "ascii_runtime = \<lparr>isspace = ascii_isspace, isdigit = ascii_isdigit,
                     str_lower = ascii_lower, str_float = decimal_float\<rparr>"

definition covered_char :: "int \<Rightarrow> bool" where
  "covered_char c = ((0 \<le> c \<and> c < 128) \<or> c = rupee)"

definition ascii_faithful :: "runtime \<Rightarrow> bool" where
  "ascii_faithful rt =
     ((\<forall>c. covered_char c \<longrightarrow> isspace rt c = ascii_isspace c \<and> isdigit rt c = ascii_isdigit c)
      \<and> (\<forall>s. list_all covered_char s \<longrightarrow> str_lower rt s = ascii_lower s)
      \<and> (\<forall>s. list_all (\<lambda>c. ascii_isdigit c \<or> c = 46) s \<longrightarrow> str_float rt s = decimal_float s))"

section \<open>scrapers/cppp\_scraper.py, scrapers/defproc\_scraper.py: the pagination loop\<close>

text \<open>
  What one iteration learns about page \<open>page_index\<close>: the fetch failed (\<open>get\<close> returned
  \<open>None\<close>), the response is a JavaScript shell, or \<open>_parse_nic_page\<close> produced a batch.
  The network is a function from page index to that outcome; every index is requested at
  most once in a run. The branch through which the loop leaves, which the source only
  logs, is returned with the list.
\<close>

datatype response = FetchFailed | JsShell | Page "tender list"

datatype stop = StopFetchFailed | StopJsShell | StopEmpty | StopCutoff | StopMaxPages

definition batch_dates :: "tender list \<Rightarrow> datetime list" where
  \<comment> \<open>\<open>[t.published_date or t.deadline for t in batch if (t.published_date or t.deadline)]\<close>\<close>
  "batch_dates batch =
     List.map_filter
       (\<lambda>t. case published_date t of Some d \<Rightarrow> Some d | None \<Rightarrow> deadline t) batch"

definition cutoff_reached :: "tender list \<Rightarrow> datetime \<Rightarrow> bool" where
  \<comment> \<open>\<open>dates and min(d for d in dates if d) < self.cutoff_date\<close>\<close>
  "cutoff_reached batch cutoff_date =
     (let dates = batch_dates batch in dates \<noteq> [] \<and> Min (set dates) < cutoff_date)"

function scrape_loop ::
  "(nat \<Rightarrow> response) \<Rightarrow> nat \<Rightarrow> datetime \<Rightarrow> tender list \<Rightarrow> nat \<Rightarrow> tender list
     \<Rightarrow> stop \<times> tender list" where
  "scrape_loop get max_pages cutoff_date playwright page_index tenders =
     (if page_index \<le> max_pages then
        (case get page_index of
           FetchFailed \<Rightarrow> (StopFetchFailed, tenders)
         | JsShell \<Rightarrow> (StopJsShell, playwright)
         | Page batch \<Rightarrow>
             if batch = [] then (StopEmpty, tenders)
             else if cutoff_reached batch cutoff_date then (StopCutoff, tenders @ batch)
             else scrape_loop get max_pages cutoff_date playwright (page_index + 1)
                    (tenders @ batch))
      else (StopMaxPages, tenders))"
  by pat_completeness auto
termination
  by (relation "measure (\<lambda>(get, max_pages, cutoff_date, playwright, page_index, tenders).
                 Suc max_pages - page_index)") auto

declare scrape_loop.simps [simp del]

definition CpppScraper_scrape ::
  "(nat \<Rightarrow> response) \<Rightarrow> nat \<Rightarrow> datetime \<Rightarrow> tender list \<Rightarrow> stop \<times> tender list" where
  "CpppScraper_scrape get max_pages cutoff_date playwright =
     scrape_loop get max_pages cutoff_date playwright 1 []"

definition DefprocScraper_scrape ::
  "(nat \<Rightarrow> response) \<Rightarrow> nat \<Rightarrow> datetime \<Rightarrow> tender list \<Rightarrow> stop \<times> tender list" where
  "DefprocScraper_scrape get max_pages cutoff_date playwright =
     scrape_loop get max_pages cutoff_date playwright 1 []"

section \<open>scrapers/hsl\_scraper.py, scrapers/gem\_scraper.py: deduplication\<close>

definition dedup_key :: "tender \<Rightarrow> string" where
  \<comment> \<open>\<open>t.tender_id or t.title\<close>\<close>
  "dedup_key t = (if tender_id t \<noteq> [] then tender_id t else title t)"

fun hsl_dedup :: "tender list \<Rightarrow> string set \<Rightarrow> tender list \<Rightarrow> tender list" where
  \<comment> \<open>the loop of \<open>HslScraper.scrape\<close> over \<open>tenders\<close>, with its \<open>seen\<close> and \<open>unique\<close>\<close>
  "hsl_dedup [] seen unique = unique"
| "hsl_dedup (t # ts) seen unique =
     (let key = dedup_key t
      in if key \<notin> seen then hsl_dedup ts (insert key seen) (unique @ [t])
         else hsl_dedup ts seen unique)"

definition HslScraper_scrape :: "tender list \<Rightarrow> tender list \<Rightarrow> tender list" where
  \<comment> \<open>the arguments are the results of \<open>_scrape_nic_portal\<close> and \<open>_scrape_hsl_main_site\<close>\<close>
  "HslScraper_scrape nic main_site = hsl_dedup (nic @ main_site) {} []"

fun gem_collect :: "tender list \<Rightarrow> tender list \<times> string set \<Rightarrow> tender list \<times> string set" where
  \<comment> \<open>lines 166-170 of \<open>GemScraper._search_and_collect\<close>: one parsed page merged into
      the \<open>tenders\<close> and \<open>seen_ids\<close> shared by all searches\<close>
  "gem_collect [] st = st"
| "gem_collect (t # batch) (tenders, seen_ids) =
     (if tender_id t \<noteq> [] \<and> tender_id t \<notin> seen_ids
      then gem_collect batch (tenders @ [t], insert (tender_id t) seen_ids)
      else gem_collect batch (tenders, seen_ids))"

section \<open>Reference definitions and sample data\<close>

definition corpus_of :: "tender \<Rightarrow> string" where
  \<comment> \<open>the search corpus built at the head of \<open>score_tender\<close>\<close>
  "corpus_of t = join_space [title t, description t, category t, department t]"

definition work_points :: "tender \<Rightarrow> profile \<Rightarrow> int" where
  \<comment> \<open>rule 3 of the specification: 40 for a first hit, 5 for each further hit, at most 4\<close>
  "work_points t p =
     (let hits = contains_any (corpus_of t) (work_keywords p)
      in if hits = [] then 0 else 40 + 5 * min (int (length hits) - 1) 4)"

definition location_points :: "tender \<Rightarrow> profile \<Rightarrow> int" where
  \<comment> \<open>rule 4 of the specification\<close>
  "location_points t p =
     (if contains_any_word (join_space [location t, department t, title t]) (locations p) = []
      then 0 else 20)"

definition budget_points :: "tender \<Rightarrow> profile \<Rightarrow> int" where
  \<comment> \<open>rule 5 of the specification\<close>
  "budget_points t p =
     (case budget_max t of
        Some hi \<Rightarrow> if budget_range_min p \<le> hi \<and> le_max hi (budget_range_max p) then 15 else 0
      | None \<Rightarrow> (case budget_min t of
                   Some lo \<Rightarrow> if le_max lo (budget_range_max p) then 8 else 0
                 | None \<Rightarrow> 0))"

definition portal_points :: "tender \<Rightarrow> int" where
  \<comment> \<open>rule 6 of the specification\<close>
  "portal_points t =
     (if portal t = ''HSL (Hindustan Shipyard)'' \<or> portal t = ''defproc (Defence)'' then 15 else 0)"

definition batch_of :: "response \<Rightarrow> tender list" where
  \<comment> \<open>the batch parsed from a page; nothing for a failed fetch or a JavaScript shell\<close>
  "batch_of r = (case r of Page batch \<Rightarrow> batch | _ \<Rightarrow> [])"

definition all_dates :: "tender list \<Rightarrow> datetime list" where
  \<comment> \<open>every publish date and every deadline of a batch\<close>
  "all_dates batch =
     concat (map (\<lambda>t. (case published_date t of Some d \<Rightarrow> [d] | None \<Rightarrow> [])
                      @ (case deadline t of Some d \<Rightarrow> [d] | None \<Rightarrow> [])) batch)"

definition earliest_precedes :: "tender list \<Rightarrow> datetime \<Rightarrow> bool" where
  \<comment> \<open>the stop condition as the specification words it: the earliest of (publish date,
      deadline) across the batch precedes the cutoff\<close>
  "earliest_precedes batch cutoff_date =
     (all_dates batch \<noteq> [] \<and> Min (set (all_dates batch)) < cutoff_date)"

fun keep_first :: "('a \<Rightarrow> 'k) \<Rightarrow> 'a list \<Rightarrow> 'a list" where
  \<comment> \<open>order-preserving, first-seen-wins deduplication by key, as the specification words it\<close>
  "keep_first key [] = []"
| "keep_first key (x # xs) = x # keep_first key (filter (\<lambda>y. key y \<noteq> key x) xs)"

definition Tender :: tender where
  \<comment> \<open>\<open>Tender()\<close>: every field at its dataclass default\<close>
  "Tender = \<lparr>tender_id = [], title = [], portal = [], department = [], location = [],
             budget_min = None, budget_max = None, budget_raw = [],
             published_date = None, deadline = None, category = [], description = [],
             url = [], match_score = 0, matched_keywords = [], budget_in_range = None,
             location_match = False\<rparr>"

definition Profile :: profile where
  \<comment> \<open>the empty profile dict: every \<open>.get\<close> yields its default\<close>
  "Profile = \<lparr>locations = [], work_keywords = [], exclude_keywords = [],
              budget_range_min = 0, budget_range_max = None\<rparr>"


section \<open>Properties of the scoring engine\<close>

text \<open>
  C1. For every tender and every profile, the relevance score that \<open>score_tender\<close>
  stores lies between 0 and 100.
\<close>

theorem score_tender_range:
  "0 \<le> match_score (score_tender t p) \<and> match_score (score_tender t p) \<le> 100"
  by (simp add: score_tender_def Let_def min_def split: option.split)

lemma contains_any_Nil [simp]: "contains_any text [] = []"
  by (simp add: contains_any_def)

lemma contains_any_word_Nil [simp]: "contains_any_word text [] = []"
  by (simp add: contains_any_word_def)

subsection \<open>The score of a tender that is not excluded\<close>

lemma work_points_bounds: "0 \<le> work_points t p \<and> work_points t p \<le> 60"
  by (simp add: work_points_def Let_def)

lemma location_points_bounds: "0 \<le> location_points t p \<and> location_points t p \<le> 20"
  by (simp add: location_points_def)

lemma budget_points_bounds: "0 \<le> budget_points t p \<and> budget_points t p \<le> 15"
  by (simp add: budget_points_def split: option.split)

lemma portal_points_bounds: "0 \<le> portal_points t \<and> portal_points t \<le> 15"
  by (simp add: portal_points_def)

lemma score_tender_points:
  assumes "contains_any (corpus_of t) (exclude_keywords p) = []"
  shows "match_score (score_tender t p) =
           min (work_points t p + location_points t p + budget_points t p + portal_points t) 100"
proof -
  define work_hits where "work_hits = contains_any (corpus_of t) (work_keywords p)"
  define location_hits where
    "location_hits = contains_any_word (join_space [location t, department t, title t]) (locations p)"
  define score1 :: int where
    "score1 = (if work_hits \<noteq> [] then 0 + 40 + min (int (length work_hits) - 1) 4 * 5 else 0)"
  define score2 where "score2 = (if location_hits \<noteq> [] then score1 + 20 else score1)"
  define score3 where
    "score3 = (case budget_max t of
                 Some u \<Rightarrow> if budget_range_min p \<le> u \<and> le_max u (budget_range_max p)
                           then score2 + 15 else score2
               | None \<Rightarrow> (case budget_min t of
                            Some l \<Rightarrow> if le_max l (budget_range_max p) then score2 + 8 else score2
                          | None \<Rightarrow> score2))"
  define score4 where
    "score4 = (if portal t = ''HSL (Hindustan Shipyard)'' \<or> portal t = ''defproc (Defence)''
               then score3 + 15 else score3)"
  define score5 where
    "score5 = (if work_hits = [] \<and> location_hits = [] then max score4 0 else score4)"
  have ms: "match_score (score_tender t p) = min score5 100"
    unfolding score_tender_def Let_def score5_def score4_def score3_def score2_def score1_def
      work_hits_def location_hits_def corpus_of_def
    using assms unfolding corpus_of_def by simp
  have s1: "score1 = work_points t p"
    by (simp add: score1_def work_points_def work_hits_def Let_def)
  have s2: "score2 = score1 + location_points t p"
    by (simp add: score2_def location_points_def location_hits_def)
  have s3: "score3 = score2 + budget_points t p"
    by (simp add: score3_def budget_points_def split: option.split)
  have s4: "score4 = score3 + portal_points t"
    by (simp add: score4_def portal_points_def)
  have "0 \<le> score4"
    using work_points_bounds [of t p] location_points_bounds [of t p]
      budget_points_bounds [of t p] portal_points_bounds [of t]
    unfolding s4 s3 s2 s1 by linarith
  then have s5: "score5 = score4"
    by (simp add: score5_def)
  show ?thesis unfolding ms s5 s4 s3 s2 s1 ..
qed

subsection \<open>The exclusion rule\<close>

text \<open>
  C2 (as amended). If some configured exclude keyword occurs, lower-cased, as a substring
  of the lower-cased search corpus (title, description, category, department joined with
  spaces) after its leading and trailing whitespace is stripped, then scoring sets the score
  to 0 and the tag list to one \<open>EXCLUDED:<kw>\<close> tag per hit, and changes no other
  field: no location, budget or portal rule applies.
\<close>

theorem exclude_hit_zero:
  assumes "\<exists>kw \<in> set (exclude_keywords p).
             sublist (lower kw)
               (strip (lower (join_space [title t, description t, category t, department t])))"
  shows "score_tender t p =
           t\<lparr>match_score := 0,
             matched_keywords :=
               map (\<lambda>kw. ''EXCLUDED:'' @ kw)
                 (filter (\<lambda>kw. sublist (lower kw)
                     (strip (lower (join_space [title t, description t, category t, department t]))))
                   (exclude_keywords p))\<rparr>"
proof -
  let ?corpus = "join_space [title t, description t, category t, department t]"
  have hits: "contains_any ?corpus (exclude_keywords p) =
                filter (\<lambda>kw. sublist (lower kw) (strip (lower ?corpus))) (exclude_keywords p)"
    by (simp add: contains_any_def normalise_def)
  from assms have "contains_any ?corpus (exclude_keywords p) \<noteq> []"
    unfolding hits by (auto simp: filter_empty_conv)
  then show ?thesis
    unfolding hits [symmetric] by (simp add: score_tender_def Let_def)
qed

text \<open>
  An excluded tender: the profile excludes "underwater", the title contains it.
\<close>

theorem exclude_hit_zero_witness:
  "(\<exists>kw \<in> set (exclude_keywords (Profile\<lparr>exclude_keywords := [''diving'', ''underwater''],
                                            work_keywords := [''painting'']\<rparr>)).
      sublist (lower kw)
        (strip (lower (join_space
           [title (Tender\<lparr>title := ''Underwater hull painting''\<rparr>),
            description (Tender\<lparr>title := ''Underwater hull painting''\<rparr>),
            category (Tender\<lparr>title := ''Underwater hull painting''\<rparr>),
            department (Tender\<lparr>title := ''Underwater hull painting''\<rparr>)]))))
   \<and> score_tender (Tender\<lparr>title := ''Underwater hull painting''\<rparr>)
         (Profile\<lparr>exclude_keywords := [''diving'', ''underwater''], work_keywords := [''painting'']\<rparr>)
       = (Tender\<lparr>title := ''Underwater hull painting''\<rparr>)
           \<lparr>match_score := 0, matched_keywords := [''EXCLUDED:underwater'']\<rparr>"
proof -
  let ?t = "Tender\<lparr>title := ''Underwater hull painting''\<rparr>"
  let ?p = "Profile\<lparr>exclude_keywords := [''diving'', ''underwater''], work_keywords := [''painting'']\<rparr>"
  have h: "\<exists>kw \<in> set (exclude_keywords ?p).
      sublist (lower kw)
        (strip (lower (join_space [title ?t, description ?t, category ?t, department ?t])))"
    by code_simp
  have f: "map (\<lambda>kw. ''EXCLUDED:'' @ kw)
                 (filter (\<lambda>kw. sublist (lower kw)
                     (strip (lower (join_space [title ?t, description ?t, category ?t, department ?t]))))
                   (exclude_keywords ?p)) = [''EXCLUDED:underwater'']"
    by code_simp
  show ?thesis using h exclude_hit_zero [OF h] unfolding f by blast
qed

text \<open>
  The corpus is stripped before the test, so an exclude keyword that ends in a space and
  occurs in the unstripped corpus only across its trailing padding is not a hit: the
  tender keeps its work-keyword score.
\<close>

theorem exclude_substring_counterexample:
  "sublist (lower ''c '')
     (lower (join_space [title (Tender\<lparr>title := ''abc''\<rparr>), description (Tender\<lparr>title := ''abc''\<rparr>),
                         category (Tender\<lparr>title := ''abc''\<rparr>), department (Tender\<lparr>title := ''abc''\<rparr>)]))
   \<and> ''c '' \<in> set (exclude_keywords (Profile\<lparr>exclude_keywords := [''c ''], work_keywords := [''abc'']\<rparr>))
   \<and> match_score (score_tender (Tender\<lparr>title := ''abc''\<rparr>)
         (Profile\<lparr>exclude_keywords := [''c ''], work_keywords := [''abc'']\<rparr>)) = 40
   \<and> matched_keywords (score_tender (Tender\<lparr>title := ''abc''\<rparr>)
         (Profile\<lparr>exclude_keywords := [''c ''], work_keywords := [''abc'']\<rparr>)) = [''abc'']"
  by code_simp


lemma score_tender_budget_in_range:
  assumes "contains_any (corpus_of t) (exclude_keywords p) = []"
  shows "budget_in_range (score_tender t p) =
           (case budget_max t of
              Some hi \<Rightarrow> Some (budget_range_min p \<le> hi \<and> le_max hi (budget_range_max p))
            | None \<Rightarrow> (case budget_min t of
                         Some lo \<Rightarrow> Some (le_max lo (budget_range_max p))
                       | None \<Rightarrow> None))"
  using assms unfolding corpus_of_def score_tender_def Let_def by simp



lemma corpus_of_profile_update [simp]:
  "corpus_of (t\<lparr>budget_min := a, budget_max := b\<rparr>) = corpus_of t"
  by (simp add: corpus_of_def)

subsection \<open>The work-keyword rule\<close>

text \<open>
  C3 (as amended). For a tender with no exclude-keyword hit, the work-keyword rule
  contributes exactly \<open>40 + 5 * min(extra_hits, 4)\<close> when at least one entry of the
  work-keyword list occurs, lower-cased, in the lower-cased and stripped corpus, where
  \<open>extra_hits\<close> is the number of matching list entries beyond the first (an entry that
  is repeated in the list counts each time), and exactly 0 when none matches. The
  contribution is what the score gains over the score under the same profile without work
  keywords, before the final cap at 100.
\<close>

theorem work_keyword_contribution:
  assumes "contains_any (corpus_of t) (exclude_keywords p) = []"
  shows "match_score (score_tender t p) =
           min 100
             (match_score (score_tender t (p\<lparr>work_keywords := []\<rparr>))
              + (let hits = filter (\<lambda>kw. sublist (lower kw) (strip (lower (corpus_of t))))
                              (work_keywords p)
                 in if hits = [] then 0 else 40 + 5 * min (int (length hits) - 1) 4))"
proof -
  let ?q = "p\<lparr>work_keywords := []\<rparr>"
  have q: "contains_any (corpus_of t) (exclude_keywords ?q) = []"
    using assms by simp
  have w: "work_points t p =
      (let hits = filter (\<lambda>kw. sublist (lower kw) (strip (lower (corpus_of t)))) (work_keywords p)
       in if hits = [] then 0 else 40 + 5 * min (int (length hits) - 1) 4)"
    by (simp add: work_points_def contains_any_def normalise_def Let_def)
  have rest: "work_points t ?q = 0" "location_points t ?q = location_points t p"
    "budget_points t ?q = budget_points t p"
    by (simp_all add: work_points_def location_points_def budget_points_def split: option.split)
  have "match_score (score_tender t ?q) = location_points t p + budget_points t p + portal_points t"
    using location_points_bounds [of t p] budget_points_bounds [of t p] portal_points_bounds [of t]
    unfolding score_tender_points [OF q] rest by linarith
  then show ?thesis
    unfolding score_tender_points [OF assms] w [symmetric] by linarith
qed

subsection \<open>The location rule\<close>

text \<open>
  What the word-boundary search means: a pattern is found exactly when the text splits
  around an occurrence of it such that \<open>\b\<close> holds at both ends, that is, exactly one
  of the two characters around the start is a word character, and likewise around the
  end (a missing character counts as a non-word character). For a keyword that begins and
  ends with a word character, this says that the occurrence is neither preceded nor
  followed by a word character.
\<close>

lemma match_at_split:
  "match_at pat (pre @ pat @ post) (length pre) \<longleftrightarrow>
     ((pre \<noteq> [] \<and> is_word_char (last pre))
        \<noteq> (pat @ post \<noteq> [] \<and> is_word_char (hd (pat @ post))))
     \<and> ((pre @ pat \<noteq> [] \<and> is_word_char (last (pre @ pat)))
        \<noteq> (post \<noteq> [] \<and> is_word_char (hd post)))"
proof -
  let ?s = "pre @ pat @ post"
  have a: "word_at ?s (length pre) = (pat @ post \<noteq> [] \<and> is_word_char (hd (pat @ post)))"
    by (cases "pat @ post") (simp_all add: word_at_def nth_append hd_conv_nth del: append_is_Nil_conv)
  have before: "(0 < length w \<and> word_at (w @ rest) (length w - 1))
                  = (w \<noteq> [] \<and> is_word_char (last w))" for w rest :: string
    by (cases w rule: rev_cases) (simp_all add: word_at_def nth_append)
  have b: "(0 < length pre \<and> word_at ?s (length pre - 1)) = (pre \<noteq> [] \<and> is_word_char (last pre))"
    by (rule before)
  have c: "(0 < length pre + length pat \<and> word_at ?s (length pre + length pat - 1))
             = (pre @ pat \<noteq> [] \<and> is_word_char (last (pre @ pat)))"
    using before [of "pre @ pat" post] by simp
  have d: "word_at ?s (length pre + length pat) = (post \<noteq> [] \<and> is_word_char (hd post))"
    by (cases "post = []") (simp_all add: word_at_def nth_append hd_conv_nth)
  show ?thesis
    unfolding match_at_def boundary_def a b c d by simp
qed

lemma search_word_iff:
  "search_word pat s \<longleftrightarrow> (\<exists>i \<le> length s. match_at pat s i)"
  by (auto simp: search_word_def list_ex_iff less_Suc_eq_le simp del: upt_Suc)

lemma search_word_split:
  "search_word pat s \<longleftrightarrow>
     (\<exists>pre post. s = pre @ pat @ post
        \<and> ((pre \<noteq> [] \<and> is_word_char (last pre))
             \<noteq> (pat @ post \<noteq> [] \<and> is_word_char (hd (pat @ post))))
        \<and> ((pre @ pat \<noteq> [] \<and> is_word_char (last (pre @ pat)))
             \<noteq> (post \<noteq> [] \<and> is_word_char (hd post))))"
  (is "_ \<longleftrightarrow> (\<exists>pre post. ?P pre post)")
proof
  assume "search_word pat s"
  then obtain i where i: "i \<le> length s" "match_at pat s i"
    unfolding search_word_iff by blast
  let ?n = "length pat"
  from i(2) have t: "take ?n (drop i s) = pat"
    by (simp add: match_at_def)
  have s: "s = take i s @ pat @ drop (i + ?n) s"
  proof -
    have "drop i s = take ?n (drop i s) @ drop ?n (drop i s)"
      by (simp only: append_take_drop_id)
    then have "drop i s = pat @ drop (i + ?n) s" unfolding t by (simp add: add.commute)
    then show ?thesis by (metis append_take_drop_id)
  qed
  have len: "length (take i s) = i" using i(1) by simp
  from i(2) have "match_at pat (take i s @ pat @ drop (i + ?n) s) (length (take i s))"
    unfolding len using s by simp
  then have "?P (take i s) (drop (i + ?n) s)"
    unfolding match_at_split using s by blast
  then show "\<exists>pre post. ?P pre post" by blast
next
  assume "\<exists>pre post. ?P pre post"
  then obtain pre post where p: "?P pre post" by blast
  then have "match_at pat s (length pre)"
    using match_at_split [of pat pre post] by simp
  moreover have "length pre \<le> length s" using p by simp
  ultimately show "search_word pat s"
    unfolding search_word_iff by blast
qed

lemma contains_any_word_whole_word:
  assumes "kw \<noteq> []" "is_word_char (hd (lower kw))" "is_word_char (last (lower kw))"
  shows "kw \<in> set (contains_any_word text keywords) \<longleftrightarrow>
           kw \<in> set keywords
           \<and> (\<exists>pre post. normalise text = pre @ lower kw @ post
                 \<and> (pre = [] \<or> \<not> is_word_char (last pre))
                 \<and> (post = [] \<or> \<not> is_word_char (hd post)))"
proof -
  have n: "lower kw \<noteq> []"
    using assms(1) by (simp add: lower_def)
  have "search_word (lower kw) (normalise text) \<longleftrightarrow>
          (\<exists>pre post. normalise text = pre @ lower kw @ post
                 \<and> (pre = [] \<or> \<not> is_word_char (last pre))
                 \<and> (post = [] \<or> \<not> is_word_char (hd post)))"
    unfolding search_word_split using n assms(2,3) by auto
  then show ?thesis
    by (simp add: contains_any_word_def)
qed




subsection \<open>The budget rule\<close>

text \<open>
  C5. For every tender that is not excluded: if the upper budget bound is known, scoring
  adds 15 exactly when profile minimum \<open>\<le>\<close> upper \<open>\<le>\<close> profile maximum and sets
  \<open>budget_in_range\<close> to that boolean; else if the lower bound is known it adds 8 exactly
  when lower \<open>\<le>\<close> profile maximum and sets \<open>budget_in_range\<close> to that boolean; else
  \<open>budget_in_range\<close> is unknown (\<open>None\<close>) and the score is unchanged. The addition is
  relative to the score of the same tender with both bounds unknown, before the cap at 100.
\<close>

theorem budget_contribution:
  assumes "contains_any (corpus_of t) (exclude_keywords p) = []"
  shows "budget_in_range (score_tender t p) =
           (case budget_max t of
              Some hi \<Rightarrow>
                Some (budget_range_min p \<le> hi
                      \<and> (case budget_range_max p of None \<Rightarrow> True | Some m \<Rightarrow> hi \<le> m))
            | None \<Rightarrow>
                (case budget_min t of
                   Some lo \<Rightarrow> Some (case budget_range_max p of None \<Rightarrow> True | Some m \<Rightarrow> lo \<le> m)
                 | None \<Rightarrow> None))
         \<and> match_score (score_tender t p) =
             min 100
               (match_score (score_tender (t\<lparr>budget_min := None, budget_max := None\<rparr>) p)
                + (case budget_max t of
                     Some hi \<Rightarrow>
                       if budget_range_min p \<le> hi
                          \<and> (case budget_range_max p of None \<Rightarrow> True | Some m \<Rightarrow> hi \<le> m)
                       then 15 else 0
                   | None \<Rightarrow>
                       (case budget_min t of
                          Some lo \<Rightarrow>
                            if (case budget_range_max p of None \<Rightarrow> True | Some m \<Rightarrow> lo \<le> m)
                            then 8 else 0
                        | None \<Rightarrow> 0)))"
proof -
  let ?u = "t\<lparr>budget_min := None, budget_max := None\<rparr>"
  have u: "contains_any (corpus_of ?u) (exclude_keywords p) = []"
    using assms by simp
  have rest: "work_points ?u p = work_points t p" "location_points ?u p = location_points t p"
    "budget_points ?u p = 0" "portal_points ?u = portal_points t"
    by (simp_all add: work_points_def location_points_def budget_points_def portal_points_def
          split: option.split)
  have "match_score (score_tender ?u p) = work_points t p + location_points t p + portal_points t"
    using work_points_bounds [of t p] location_points_bounds [of t p] portal_points_bounds [of t]
    unfolding score_tender_points [OF u] rest by linarith
  then have "match_score (score_tender t p) =
      min 100 (match_score (score_tender ?u p) + budget_points t p)"
    unfolding score_tender_points [OF assms] by linarith
  then show ?thesis
    unfolding score_tender_budget_in_range [OF assms] budget_points_def le_max_def by simp
qed

text \<open>
  Two of three work keywords match a tender of the defence portal: 15 + 45 = 60.
\<close>

theorem work_keyword_contribution_witness:
  "contains_any (corpus_of (Tender\<lparr>title := ''Painting and civil works'', portal := ''defproc (Defence)''\<rparr>))
     (exclude_keywords (Profile\<lparr>work_keywords := [''painting'', ''scaffolding'', ''civil'']\<rparr>)) = []
   \<and> match_score (score_tender
         (Tender\<lparr>title := ''Painting and civil works'', portal := ''defproc (Defence)''\<rparr>)
         (Profile\<lparr>work_keywords := [''painting'', ''scaffolding'', ''civil'']\<rparr>)) = 60"
proof -
  let ?t = "Tender\<lparr>title := ''Painting and civil works'', portal := ''defproc (Defence)''\<rparr>"
  let ?p = "Profile\<lparr>work_keywords := [''painting'', ''scaffolding'', ''civil'']\<rparr>"
  have h: "contains_any (corpus_of ?t) (exclude_keywords ?p) = []"
    by code_simp
  have e: "min 100
             (match_score (score_tender ?t (?p\<lparr>work_keywords := []\<rparr>))
              + (let hits = filter (\<lambda>kw. sublist (lower kw) (strip (lower (corpus_of ?t))))
                              (work_keywords ?p)
                 in if hits = [] then 0 else 40 + 5 * min (int (length hits) - 1) 4)) = 60"
    by code_simp
  show ?thesis using h work_keyword_contribution [OF h] unfolding e by blast
qed

text \<open>
  Two inputs on which the rule departs from a count of distinct substrings of the corpus:
  the keyword "c " occurs in the corpus "abc" followed by its padding, but not in the
  stripped corpus, and earns nothing; the keyword "paint" listed twice is one distinct hit
  but earns the bonus for a second hit.
\<close>

theorem work_keyword_counterexample:
  "sublist (lower ''c '') (lower (corpus_of (Tender\<lparr>title := ''abc''\<rparr>)))
   \<and> contains_any (corpus_of (Tender\<lparr>title := ''abc''\<rparr>))
        (exclude_keywords (Profile\<lparr>work_keywords := [''c '']\<rparr>)) = []
   \<and> match_score (score_tender (Tender\<lparr>title := ''abc''\<rparr>) (Profile\<lparr>work_keywords := [''c '']\<rparr>)) = 0
   \<and> card (set (contains_any (corpus_of (Tender\<lparr>title := ''paint''\<rparr>))
                    (work_keywords (Profile\<lparr>work_keywords := [''paint'', ''paint'']\<rparr>)))) = 1
   \<and> contains_any (corpus_of (Tender\<lparr>title := ''paint''\<rparr>))
        (exclude_keywords (Profile\<lparr>work_keywords := [''paint'', ''paint'']\<rparr>)) = []
   \<and> match_score (score_tender (Tender\<lparr>title := ''paint''\<rparr>)
        (Profile\<lparr>work_keywords := [''paint'', ''paint'']\<rparr>)) = 45"
  by code_simp


text \<open>
  Against the range 100000 to 1000000: an upper bound of 500000 is in range and earns 15
  points; an upper bound of 2000000 is out of range and earns nothing; a lower bound of
  2000000 alone is out of range and earns nothing.
\<close>

theorem budget_contribution_witness:
  "contains_any (corpus_of (Tender\<lparr>title := ''Jetty repair'', budget_max := Some 500000\<rparr>))
     (exclude_keywords (Profile\<lparr>budget_range_min := 100000, budget_range_max := Some 1000000\<rparr>)) = []
   \<and> budget_in_range (score_tender (Tender\<lparr>title := ''Jetty repair'', budget_max := Some 500000\<rparr>)
        (Profile\<lparr>budget_range_min := 100000, budget_range_max := Some 1000000\<rparr>)) = Some True
   \<and> match_score (score_tender (Tender\<lparr>title := ''Jetty repair'', budget_max := Some 500000\<rparr>)
        (Profile\<lparr>budget_range_min := 100000, budget_range_max := Some 1000000\<rparr>)) = 15
   \<and> contains_any (corpus_of (Tender\<lparr>title := ''Jetty repair'', budget_max := Some 2000000\<rparr>))
     (exclude_keywords (Profile\<lparr>budget_range_min := 100000, budget_range_max := Some 1000000\<rparr>)) = []
   \<and> budget_in_range (score_tender (Tender\<lparr>title := ''Jetty repair'', budget_max := Some 2000000\<rparr>)
        (Profile\<lparr>budget_range_min := 100000, budget_range_max := Some 1000000\<rparr>)) = Some False
   \<and> match_score (score_tender (Tender\<lparr>title := ''Jetty repair'', budget_max := Some 2000000\<rparr>)
        (Profile\<lparr>budget_range_min := 100000, budget_range_max := Some 1000000\<rparr>)) = 0
   \<and> contains_any (corpus_of (Tender\<lparr>title := ''Jetty repair'', budget_min := Some 2000000\<rparr>))
     (exclude_keywords (Profile\<lparr>budget_range_min := 100000, budget_range_max := Some 1000000\<rparr>)) = []
   \<and> budget_in_range (score_tender (Tender\<lparr>title := ''Jetty repair'', budget_min := Some 2000000\<rparr>)
        (Profile\<lparr>budget_range_min := 100000, budget_range_max := Some 1000000\<rparr>)) = Some False
   \<and> match_score (score_tender (Tender\<lparr>title := ''Jetty repair'', budget_min := Some 2000000\<rparr>)
        (Profile\<lparr>budget_range_min := 100000, budget_range_max := Some 1000000\<rparr>)) = 0"
proof -
  let ?p = "Profile\<lparr>budget_range_min := 100000, budget_range_max := Some 1000000\<rparr>"
  let ?a = "Tender\<lparr>title := ''Jetty repair'', budget_max := Some 500000\<rparr>"
  let ?b = "Tender\<lparr>title := ''Jetty repair'', budget_max := Some 2000000\<rparr>"
  let ?c = "Tender\<lparr>title := ''Jetty repair'', budget_min := Some 2000000\<rparr>"
  have p: "budget_range_min ?p = 100000" "budget_range_max ?p = Some 1000000"
    by (simp_all add: Profile_def)
  have ha: "contains_any (corpus_of ?a) (exclude_keywords ?p) = []"
    by code_simp
  have hb: "contains_any (corpus_of ?b) (exclude_keywords ?p) = []"
    by code_simp
  have hc: "contains_any (corpus_of ?c) (exclude_keywords ?p) = []"
    by code_simp
  have a: "budget_max ?a = Some 500000"
    and b: "budget_max ?b = Some 2000000"
    and c: "budget_max ?c = None" "budget_min ?c = Some 2000000"
    by (simp_all add: Tender_def)
  have ra: "match_score (score_tender (?a\<lparr>budget_min := None, budget_max := None\<rparr>) ?p) = 0"
    by code_simp
  have rb: "match_score (score_tender (?b\<lparr>budget_min := None, budget_max := None\<rparr>) ?p) = 0"
    by code_simp
  have rc: "match_score (score_tender (?c\<lparr>budget_min := None, budget_max := None\<rparr>) ?p) = 0"
    by code_simp
  have "budget_in_range (score_tender ?a ?p) = Some True \<and> match_score (score_tender ?a ?p) = 15"
    using budget_contribution [OF ha] unfolding p a ra by simp
  moreover
  have "budget_in_range (score_tender ?b ?p) = Some False \<and> match_score (score_tender ?b ?p) = 0"
    using budget_contribution [OF hb] unfolding p b rb by simp
  moreover
  have "budget_in_range (score_tender ?c ?p) = Some False \<and> match_score (score_tender ?c ?p) = 0"
    using budget_contribution [OF hc] unfolding p c rc by simp
  ultimately show ?thesis
    using ha hb hc by blast
qed

section \<open>Properties of the filter and sort pipeline\<close>

text \<open>
  C6. For every list of tenders and every \<open>min_score\<close>, \<open>filter_tenders\<close> returns
  exactly the scored tenders whose score is at least \<open>min_score\<close> (as a multiset),
  ordered by score descending, ties broken by deadline ascending with a missing deadline
  taken as the maximal date, and stably: tenders with equal sort key keep their input
  order. Scores 50, 80, 50 with deadlines 20, 10, 10 come out as 80, 50 (deadline 10),
  50 (deadline 20); a tender without deadline follows its equals, and equal keys keep the
  input order.
\<close>

theorem filter_tenders_sorted:
  "(let kept = filter (\<lambda>t. min_score \<le> match_score t) (map (\<lambda>t. score_tender t p) tenders);
        out = filter_tenders tenders p min_score
    in mset out = mset kept
     \<and> sorted_wrt (\<lambda>a b. match_score a > match_score b
           \<or> (match_score a = match_score b
              \<and> (case deadline a of Some d \<Rightarrow> d | None \<Rightarrow> datetime_max)
                  \<le> (case deadline b of Some d \<Rightarrow> d | None \<Rightarrow> datetime_max))) out
     \<and> (\<forall>k. filter (\<lambda>t. sort_key_of t = k) out = filter (\<lambda>t. sort_key_of t = k) kept))
   \<and> map (\<lambda>t. (tender_id t, match_score t, deadline t))
       (filter_tenders
          [Tender\<lparr>tender_id := ''A'', title := ''painting civil scaffolding'', deadline := Some 20\<rparr>,
           Tender\<lparr>tender_id := ''B'', title := ''painting civil scaffolding'', deadline := Some 10,
                  portal := ''HSL (Hindustan Shipyard)'', budget_max := Some 500000\<rparr>,
           Tender\<lparr>tender_id := ''C'', title := ''painting civil scaffolding'', deadline := Some 10\<rparr>]
          (Profile\<lparr>work_keywords := [''painting'', ''civil'', ''scaffolding'']\<rparr>) 20)
     = [(''B'', 80, Some 10), (''C'', 50, Some 10), (''A'', 50, Some 20)]
   \<and> map (\<lambda>t. (tender_id t, match_score t, deadline t))
       (filter_tenders
          [Tender\<lparr>tender_id := ''D'', title := ''painting civil scaffolding''\<rparr>,
           Tender\<lparr>tender_id := ''A'', title := ''painting civil scaffolding'', deadline := Some 20\<rparr>,
           Tender\<lparr>tender_id := ''B'', title := ''painting civil scaffolding'', deadline := Some 10,
                  portal := ''HSL (Hindustan Shipyard)'', budget_max := Some 500000\<rparr>,
           Tender\<lparr>tender_id := ''C'', title := ''painting civil scaffolding'', deadline := Some 10\<rparr>,
           Tender\<lparr>tender_id := ''E'', title := ''painting civil scaffolding'', deadline := Some 10\<rparr>,
           Tender\<lparr>tender_id := ''F'', title := ''dredging''\<rparr>]
          (Profile\<lparr>work_keywords := [''painting'', ''civil'', ''scaffolding'']\<rparr>) 20)
     = [(''B'', 80, Some 10), (''C'', 50, Some 10), (''E'', 50, Some 10), (''A'', 50, Some 20),
        (''D'', 50, None)]"
proof -
  have example1: "map (\<lambda>t. (tender_id t, match_score t, deadline t))
       (filter_tenders
          [Tender\<lparr>tender_id := ''A'', title := ''painting civil scaffolding'', deadline := Some 20\<rparr>,
           Tender\<lparr>tender_id := ''B'', title := ''painting civil scaffolding'', deadline := Some 10,
                  portal := ''HSL (Hindustan Shipyard)'', budget_max := Some 500000\<rparr>,
           Tender\<lparr>tender_id := ''C'', title := ''painting civil scaffolding'', deadline := Some 10\<rparr>]
          (Profile\<lparr>work_keywords := [''painting'', ''civil'', ''scaffolding'']\<rparr>) 20)
     = [(''B'', 80, Some 10), (''C'', 50, Some 10), (''A'', 50, Some 20)]"
    by code_simp
  have example2: "map (\<lambda>t. (tender_id t, match_score t, deadline t))
       (filter_tenders
          [Tender\<lparr>tender_id := ''D'', title := ''painting civil scaffolding''\<rparr>,
           Tender\<lparr>tender_id := ''A'', title := ''painting civil scaffolding'', deadline := Some 20\<rparr>,
           Tender\<lparr>tender_id := ''B'', title := ''painting civil scaffolding'', deadline := Some 10,
                  portal := ''HSL (Hindustan Shipyard)'', budget_max := Some 500000\<rparr>,
           Tender\<lparr>tender_id := ''C'', title := ''painting civil scaffolding'', deadline := Some 10\<rparr>,
           Tender\<lparr>tender_id := ''E'', title := ''painting civil scaffolding'', deadline := Some 10\<rparr>,
           Tender\<lparr>tender_id := ''F'', title := ''dredging''\<rparr>]
          (Profile\<lparr>work_keywords := [''painting'', ''civil'', ''scaffolding'']\<rparr>) 20)
     = [(''B'', 80, Some 10), (''C'', 50, Some 10), (''E'', 50, Some 10), (''A'', 50, Some 20),
        (''D'', 50, None)]"
    by code_simp
  define kept where
    "kept = filter (\<lambda>t. min_score \<le> match_score t) (map (\<lambda>t. score_tender t p) tenders)"
  have out: "filter_tenders tenders p min_score = sort_key sort_key_of kept"
    by (simp add: filter_tenders_def kept_def Let_def)
  have "sorted (map sort_key_of (sort_key sort_key_of kept))"
    by (rule sorted_sort_key)
  then have "sorted_wrt (\<lambda>a b. sort_key_of a \<le> sort_key_of b) (sort_key sort_key_of kept)"
    by (simp add: sorted_map)
  then have "sorted_wrt (\<lambda>a b. match_score a > match_score b
           \<or> (match_score a = match_score b
              \<and> (case deadline a of Some d \<Rightarrow> d | None \<Rightarrow> datetime_max)
                  \<le> (case deadline b of Some d \<Rightarrow> d | None \<Rightarrow> datetime_max)))
        (sort_key sort_key_of kept)"
    by (rule sorted_wrt_mono_rel [rotated]) (auto simp: sort_key_of_def less_eq_prod_def)
  moreover have "mset (sort_key sort_key_of kept) = mset kept"
    by simp
  moreover have "\<forall>k. filter (\<lambda>t. sort_key_of t = k) (sort_key sort_key_of kept)
                    = filter (\<lambda>t. sort_key_of t = k) kept"
    by (simp add: sort_key_stable)
  ultimately have "mset (sort_key sort_key_of kept) = mset kept
     \<and> sorted_wrt (\<lambda>a b. match_score a > match_score b
           \<or> (match_score a = match_score b
              \<and> (case deadline a of Some d \<Rightarrow> d | None \<Rightarrow> datetime_max)
                  \<le> (case deadline b of Some d \<Rightarrow> d | None \<Rightarrow> datetime_max)))
          (sort_key sort_key_of kept)
     \<and> (\<forall>k. filter (\<lambda>t. sort_key_of t = k) (sort_key sort_key_of kept)
            = filter (\<lambda>t. sort_key_of t = k) kept)"
    by blast
  then show ?thesis
    unfolding Let_def out kept_def [symmetric] example1 example2 by simp
qed

section \<open>Properties of the rupee amount parser\<close>

lemma set_remove_all: "set (remove_all old s) \<subseteq> set s"
proof (induction old s rule: remove_all.induct)
  case (1 old)
  then show ?case by simp
next
  case (2 old c cs)
  show ?case
  proof (cases "old \<noteq> [] \<and> prefix old (c # cs)")
    case True
    then have "set (remove_all old (c # cs)) \<subseteq> set (drop (length old) (c # cs))"
      using 2 by simp
    also have "\<dots> \<subseteq> set (c # cs)"
      by (rule set_drop_subset)
    finally show ?thesis .
  next
    case False
    then show ?thesis using 2 by auto
  qed
qed

lemma set_ustrip: "set (ustrip rt s) \<subseteq> set s"
proof -
  have "set (dropWhile P xs) \<subseteq> set xs" for P and xs :: ustring
    by (auto dest: set_dropWhileD)
  then have "set (dropWhile (isspace rt) (rev (dropWhile (isspace rt) s))) \<subseteq> set s"
    by (metis set_rev subset_trans)
  then show ?thesis by (simp add: ustrip_def)
qed

lemma ascii_faithful_ascii_runtime: "ascii_faithful ascii_runtime"
  by (simp add: ascii_faithful_def ascii_runtime_def)

lemma ustrip_ascii:
  assumes "ascii_faithful rt" "list_all covered_char s"
  shows "ustrip rt s = ustrip ascii_runtime s"
proof -
  have sp: "isspace rt c = ascii_isspace c" if "c \<in> set xs" "set xs \<subseteq> set s" for c xs
    using assms that by (auto simp: ascii_faithful_def list_all_iff)
  have d1: "dropWhile (isspace rt) s = dropWhile ascii_isspace s"
    by (rule dropWhile_cong) (auto simp: sp [of _ s])
  let ?r = "rev (dropWhile ascii_isspace s)"
  have sub: "set ?r \<subseteq> set s"
    by (auto dest: set_dropWhileD)
  have d2: "dropWhile (isspace rt) ?r = dropWhile ascii_isspace ?r"
    by (rule dropWhile_cong) (use sub in \<open>auto simp: sp [of _ ?r]\<close>)
  show ?thesis
    by (simp add: ustrip_def d1 d2 ascii_runtime_def)
qed

lemma parse_inr_ascii:
  assumes rt: "ascii_faithful rt" and cov: "list_all covered_char text"
  shows "parse_inr rt text = parse_inr ascii_runtime text"
proof -
  let ?c = "\<lambda>r. ustrip r (remove_all (ustr ''Rs.'') (remove_all [rupee]
                     (remove_all (ustr '','') (ustrip r text))))"
  have s1: "ustrip rt text = ustrip ascii_runtime text"
    using rt cov by (rule ustrip_ascii)
  let ?m = "remove_all (ustr ''Rs.'') (remove_all [rupee] (remove_all (ustr '','') (ustrip ascii_runtime text)))"
  have "set ?m \<subseteq> set text"
    using set_remove_all set_ustrip by (meson subset_trans)
  then have covm: "list_all covered_char ?m"
    using cov by (auto simp: list_all_iff)
  have clean: "?c rt = ?c ascii_runtime"
    unfolding s1 using rt covm by (rule ustrip_ascii)
  have "set (?c ascii_runtime) \<subseteq> set ?m"
    by (rule set_ustrip)
  with covm have covc: "list_all covered_char (?c ascii_runtime)"
    by (auto simp: list_all_iff)
  have low: "str_lower rt (?c ascii_runtime) = str_lower ascii_runtime (?c ascii_runtime)"
    using rt covc by (simp add: ascii_faithful_def ascii_runtime_def)
  have dig: "filter (\<lambda>c. isdigit rt c \<or> c = 46) (?c ascii_runtime)
           = filter (\<lambda>c. isdigit ascii_runtime c \<or> c = 46) (?c ascii_runtime)"
    by (rule filter_cong)
      (use rt covc in \<open>auto simp: ascii_faithful_def ascii_runtime_def list_all_iff\<close>)
  have "list_all (\<lambda>c. ascii_isdigit c \<or> c = 46)
          (filter (\<lambda>c. isdigit ascii_runtime c \<or> c = 46) (?c ascii_runtime))"
    by (simp add: list_all_iff ascii_runtime_def)
  then have fl: "str_float rt (filter (\<lambda>c. isdigit ascii_runtime c \<or> c = 46) (?c ascii_runtime))
      = str_float ascii_runtime (filter (\<lambda>c. isdigit ascii_runtime c \<or> c = 46) (?c ascii_runtime))"
    using rt by (simp add: ascii_faithful_def ascii_runtime_def)
  show ?thesis
    unfolding parse_inr_def Let_def clean low dig fl ..
qed


text \<open>
  C7 (as amended). \<open>parse_inr\<close> never raises. It returns none exactly when the text is
  empty, or \<open>float\<close> rejects the digit characters and full stops that remain in the
  cleaned text (commas, rupee sign, "Rs." and surrounding white space removed), or, with no
  multiplier word, none remain; every other character is ignored, not rejected. Otherwise
  it returns that number, multiplied as a double by 10,000,000 when the cleaned text
  contains "crore" or "cr", by 100,000 when it contains "lakh" or "lac". Under every
  runtime that is faithful on ASCII text: the rupee sign followed by "3,50,000" gives
  350000.0, "3.5 Lakh" gives 350000.0, "1.2 Crore" gives 12000000.0, "not a number" gives
  none; "12 items" gives 12.0, and "4.35 Lakh" gives the double 434999.99999999994.
\<close>

theorem parse_inr_total:
  "parse_inr rt text =
     Inr (if text = [] then None
          else
            let cleaned = ustrip rt (remove_all (ustr ''Rs.'') (remove_all [rupee]
                            (remove_all (ustr '','') (ustrip rt text))));
                low = str_lower rt cleaned;
                digits = filter (\<lambda>c. isdigit rt c \<or> c = 46) cleaned
            in if sublist (ustr ''crore'') low \<or> sublist (ustr ''cr'') low then
                 (case str_float rt digits of
                    Inl e \<Rightarrow> None
                  | Inr num \<Rightarrow> Some (float_mul num (float_of_int 10000000)))
               else if sublist (ustr ''lakh'') low \<or> sublist (ustr ''lac'') low then
                 (case str_float rt digits of
                    Inl e \<Rightarrow> None
                  | Inr num \<Rightarrow> Some (float_mul num (float_of_int 100000)))
               else if digits = [] then None
               else (case str_float rt digits of Inl e \<Rightarrow> None | Inr num \<Rightarrow> Some num))
   \<and> (ascii_faithful rt \<longrightarrow>
        parse_inr rt (rupee # ustr ''3,50,000'') = Inr (Some (Finite 350000))
      \<and> parse_inr rt (ustr ''3.5 Lakh'') = Inr (Some (Finite 350000))
      \<and> parse_inr rt (ustr ''1.2 Crore'') = Inr (Some (Finite 12000000))
      \<and> parse_inr rt (ustr ''not a number'') = Inr None
      \<and> parse_inr rt (ustr ''12 items'') = Inr (Some (Finite 12))
      \<and> parse_inr rt (ustr ''Rs. 1.5 lac'') = Inr (Some (Finite 150000))
      \<and> parse_inr rt (ustr ''4.35 Lakh'') = Inr (Some (Finite (7473243095039999 / 17179869184)))
      \<and> parse_inr rt (ustr ''1.2.3'') = Inr None
      \<and> parse_inr rt (ustr ''Rs.'') = Inr None)"
proof -
  have general: "parse_inr rt text =
     Inr (if text = [] then None
          else
            let cleaned = ustrip rt (remove_all (ustr ''Rs.'') (remove_all [rupee]
                            (remove_all (ustr '','') (ustrip rt text))));
                low = str_lower rt cleaned;
                digits = filter (\<lambda>c. isdigit rt c \<or> c = 46) cleaned
            in if sublist (ustr ''crore'') low \<or> sublist (ustr ''cr'') low then
                 (case str_float rt digits of
                    Inl e \<Rightarrow> None
                  | Inr num \<Rightarrow> Some (float_mul num (float_of_int 10000000)))
               else if sublist (ustr ''lakh'') low \<or> sublist (ustr ''lac'') low then
                 (case str_float rt digits of
                    Inl e \<Rightarrow> None
                  | Inr num \<Rightarrow> Some (float_mul num (float_of_int 100000)))
               else if digits = [] then None
               else (case str_float rt digits of Inl e \<Rightarrow> None | Inr num \<Rightarrow> Some num))"
    by (simp add: parse_inr_def Let_def catch_ValueError_def split: sum.split py_error.split)
  have covered:
    "list_all covered_char (rupee # ustr ''3,50,000'')"
    "list_all covered_char (ustr ''3.5 Lakh'')"
    "list_all covered_char (ustr ''1.2 Crore'')"
    "list_all covered_char (ustr ''not a number'')"
    "list_all covered_char (ustr ''12 items'')"
    "list_all covered_char (ustr ''Rs. 1.5 lac'')"
    "list_all covered_char (ustr ''4.35 Lakh'')"
    "list_all covered_char (ustr ''1.2.3'')"
    "list_all covered_char (ustr ''Rs.'')"
    by code_simp+
  have ascii:
    "parse_inr ascii_runtime (rupee # ustr ''3,50,000'') = Inr (Some (Finite 350000))"
    "parse_inr ascii_runtime (ustr ''3.5 Lakh'') = Inr (Some (Finite 350000))"
    "parse_inr ascii_runtime (ustr ''1.2 Crore'') = Inr (Some (Finite 12000000))"
    "parse_inr ascii_runtime (ustr ''not a number'') = Inr None"
    "parse_inr ascii_runtime (ustr ''12 items'') = Inr (Some (Finite 12))"
    "parse_inr ascii_runtime (ustr ''Rs. 1.5 lac'') = Inr (Some (Finite 150000))"
    "parse_inr ascii_runtime (ustr ''4.35 Lakh'') = Inr (Some (Finite (7473243095039999 / 17179869184)))"
    "parse_inr ascii_runtime (ustr ''1.2.3'') = Inr None"
    "parse_inr ascii_runtime (ustr ''Rs.'') = Inr None"
    by code_simp+
  show ?thesis
    using general parse_inr_ascii [of rt] covered ascii by simp
qed

text \<open>
  The ASCII runtime is faithful; "Rs. 2,75,000.50" gives 275000.5.
\<close>

theorem parse_inr_total_witness:
  "ascii_faithful ascii_runtime
   \<and> parse_inr ascii_runtime (ustr ''Rs. 2,75,000.50'') = Inr (Some (Finite (550001 / 2)))
   \<and> parse_inr ascii_runtime (rupee # ustr ''3,50,000'') = Inr (Some (Finite 350000))
   \<and> parse_inr ascii_runtime (ustr ''3.5 Lakh'') = Inr (Some (Finite 350000))
   \<and> parse_inr ascii_runtime (ustr ''1.2 Crore'') = Inr (Some (Finite 12000000))
   \<and> parse_inr ascii_runtime (ustr ''not a number'') = Inr None"
proof -
  let ?t = "ustr ''Rs. 2,75,000.50''"
  have e: "(Inr (if ?t = [] then None
          else
            let cleaned = ustrip ascii_runtime (remove_all (ustr ''Rs.'') (remove_all [rupee]
                            (remove_all (ustr '','') (ustrip ascii_runtime ?t))));
                low = str_lower ascii_runtime cleaned;
                digits = filter (\<lambda>c. isdigit ascii_runtime c \<or> c = 46) cleaned
            in if sublist (ustr ''crore'') low \<or> sublist (ustr ''cr'') low then
                 (case str_float ascii_runtime digits of
                    Inl e \<Rightarrow> None
                  | Inr num \<Rightarrow> Some (float_mul num (float_of_int 10000000)))
               else if sublist (ustr ''lakh'') low \<or> sublist (ustr ''lac'') low then
                 (case str_float ascii_runtime digits of
                    Inl e \<Rightarrow> None
                  | Inr num \<Rightarrow> Some (float_mul num (float_of_int 100000)))
               else if digits = [] then None
               else (case str_float ascii_runtime digits of Inl e \<Rightarrow> None | Inr num \<Rightarrow> Some num))
          :: py_error + pyfloat option)
        = Inr (Some (Finite (550001 / 2)))"
    by code_simp
  show ?thesis
    using parse_inr_total [of ascii_runtime ?t] ascii_faithful_ascii_runtime
    unfolding e by blast
qed

text \<open>
  A text with a non-numeric residue that is not a multiplier word still yields a number.
\<close>

theorem parse_inr_residue_counterexample:
  "parse_inr ascii_runtime (ustr ''12 items'') = Inr (Some (Finite 12))"
  by code_simp

text \<open>
  C10. Whenever the text, after removal of commas, the rupee sign and "Rs." and of
  surrounding white space, contains the letters "cr" anywhere, in any case and also inside
  an unrelated word, \<open>parse_inr\<close> applies the crore multiplier to the number that
  \<open>float\<close> reads from all digits and full stops of that text (and yields none when
  \<open>float\<close> rejects them). Under every runtime that is faithful on ASCII text,
  "2 concrete slabs" gives 20000000.0, "Rs. 2.5 Cr" gives 25000000.0, "0.07 cr" gives the
  double 700000.0000000001, "3 c,rates" gives 30000000.0 and "across" gives none.
\<close>

theorem parse_inr_cr_anywhere:
  "(text \<noteq> []
      \<and> sublist (ustr ''cr'')
          (str_lower rt (ustrip rt (remove_all (ustr ''Rs.'') (remove_all [rupee]
                           (remove_all (ustr '','') (ustrip rt text)))))) \<longrightarrow>
    parse_inr rt text =
      (case str_float rt
              (filter (\<lambda>c. isdigit rt c \<or> c = 46)
                 (ustrip rt (remove_all (ustr ''Rs.'') (remove_all [rupee]
                    (remove_all (ustr '','') (ustrip rt text)))))) of
         Inl e \<Rightarrow> Inr None
       | Inr num \<Rightarrow> Inr (Some (float_mul num (float_of_int 10000000)))))
   \<and> (ascii_faithful rt \<longrightarrow>
        parse_inr rt (ustr ''2 concrete slabs'') = Inr (Some (Finite 20000000))
      \<and> parse_inr rt (ustr ''Rs. 2.5 Cr'') = Inr (Some (Finite 25000000))
      \<and> parse_inr rt (ustr ''0.07 cr'') = Inr (Some (Finite (6012954214400001 / 8589934592)))
      \<and> parse_inr rt (ustr ''3 c,rates'') = Inr (Some (Finite 30000000))
      \<and> parse_inr rt (ustr ''across'') = Inr None)"
proof -
  have general: "text \<noteq> []
      \<and> sublist (ustr ''cr'')
          (str_lower rt (ustrip rt (remove_all (ustr ''Rs.'') (remove_all [rupee]
                           (remove_all (ustr '','') (ustrip rt text)))))) \<longrightarrow>
    parse_inr rt text =
      (case str_float rt
              (filter (\<lambda>c. isdigit rt c \<or> c = 46)
                 (ustrip rt (remove_all (ustr ''Rs.'') (remove_all [rupee]
                    (remove_all (ustr '','') (ustrip rt text)))))) of
         Inl e \<Rightarrow> Inr None
       | Inr num \<Rightarrow> Inr (Some (float_mul num (float_of_int 10000000))))"
    by (simp add: parse_inr_def Let_def catch_ValueError_def split: sum.split py_error.split)
  have covered:
    "list_all covered_char (ustr ''2 concrete slabs'')"
    "list_all covered_char (ustr ''Rs. 2.5 Cr'')"
    "list_all covered_char (ustr ''0.07 cr'')"
    "list_all covered_char (ustr ''3 c,rates'')"
    "list_all covered_char (ustr ''across'')"
    by code_simp+
  have ascii:
    "parse_inr ascii_runtime (ustr ''2 concrete slabs'') = Inr (Some (Finite 20000000))"
    "parse_inr ascii_runtime (ustr ''Rs. 2.5 Cr'') = Inr (Some (Finite 25000000))"
    "parse_inr ascii_runtime (ustr ''0.07 cr'') = Inr (Some (Finite (6012954214400001 / 8589934592)))"
    "parse_inr ascii_runtime (ustr ''3 c,rates'') = Inr (Some (Finite 30000000))"
    "parse_inr ascii_runtime (ustr ''across'') = Inr None"
    by code_simp+
  show ?thesis
    using general parse_inr_ascii [of rt] covered ascii by simp
qed

text \<open>
  The word "concrete" contains "cr".
\<close>

theorem parse_inr_cr_anywhere_witness:
  "ustr ''2 concrete slabs'' \<noteq> []
   \<and> sublist (ustr ''cr'')
        (str_lower ascii_runtime (ustrip ascii_runtime (remove_all (ustr ''Rs.'') (remove_all [rupee]
           (remove_all (ustr '','') (ustrip ascii_runtime (ustr ''2 concrete slabs'')))))))
   \<and> ascii_faithful ascii_runtime
   \<and> parse_inr ascii_runtime (ustr ''2 concrete slabs'') = Inr (Some (Finite 20000000))"
proof -
  let ?t = "ustr ''2 concrete slabs''"
  have h: "?t \<noteq> [] \<and> sublist (ustr ''cr'')
        (str_lower ascii_runtime (ustrip ascii_runtime (remove_all (ustr ''Rs.'') (remove_all [rupee]
           (remove_all (ustr '','') (ustrip ascii_runtime ?t))))))"
    by code_simp
  have e: "(case str_float ascii_runtime
              (filter (\<lambda>c. isdigit ascii_runtime c \<or> c = 46)
                 (ustrip ascii_runtime (remove_all (ustr ''Rs.'') (remove_all [rupee]
                    (remove_all (ustr '','') (ustrip ascii_runtime ?t)))))) of
         Inl e \<Rightarrow> Inr None
       | Inr num \<Rightarrow> Inr (Some (float_mul num (float_of_int 10000000))))
       = (Inr (Some (Finite 20000000)) :: py_error + pyfloat option)"
    by code_simp
  show ?thesis
    using h ascii_faithful_ascii_runtime parse_inr_cr_anywhere [of ?t ascii_runtime]
    unfolding e by blast
qed

section \<open>Properties of the pagination loop\<close>

lemma cutoff_reached_iff:
  "cutoff_reached batch c =
     (\<exists>t \<in> set batch.
        case published_date t of
          Some d \<Rightarrow> d < c
        | None \<Rightarrow> (case deadline t of Some d \<Rightarrow> d < c | None \<Rightarrow> False))"
proof -
  have "set (List.map_filter f xs) = {y. \<exists>x \<in> set xs. f x = Some y}" for f :: "tender \<Rightarrow> datetime option" and xs
    by (induction xs) (auto simp: map_filter_simps split: option.splits)
  then have dates: "set (batch_dates batch) =
      {d. \<exists>t \<in> set batch. (case published_date t of Some e \<Rightarrow> Some e | None \<Rightarrow> deadline t) = Some d}"
    by (simp add: batch_dates_def)
  have "cutoff_reached batch c = (\<exists>d \<in> set (batch_dates batch). d < c)"
  proof (cases "batch_dates batch = []")
    case True
    then show ?thesis by (simp add: cutoff_reached_def Let_def)
  next
    case False
    then show ?thesis by (simp add: cutoff_reached_def Let_def Min_less_iff)
  qed
  also have "\<dots> = (\<exists>t \<in> set batch.
        case published_date t of
          Some d \<Rightarrow> d < c
        | None \<Rightarrow> (case deadline t of Some d \<Rightarrow> d < c | None \<Rightarrow> False))"
  proof -
    have point: "(\<exists>d. (case published_date t of Some e \<Rightarrow> Some e | None \<Rightarrow> deadline t) = Some d \<and> d < c)
        = (case published_date t of
             Some d \<Rightarrow> d < c
           | None \<Rightarrow> (case deadline t of Some d \<Rightarrow> d < c | None \<Rightarrow> False))" for t
      by (simp split: option.splits)
    have "(\<exists>d \<in> set (batch_dates batch). d < c)
        = (\<exists>t \<in> set batch.
             \<exists>d. (case published_date t of Some e \<Rightarrow> Some e | None \<Rightarrow> deadline t) = Some d \<and> d < c)"
      unfolding dates by blast
    then show ?thesis unfolding point .
  qed
  finally show ?thesis .
qed

lemma scrape_loop_cutoff:
  "scrape_loop get mp c pw i acc = (StopCutoff, res) \<longleftrightarrow>
     (\<exists>k. i \<le> k \<and> k \<le> mp
        \<and> (\<forall>j. i \<le> j \<and> j < k \<longrightarrow> (\<exists>b. get j = Page b \<and> b \<noteq> [] \<and> \<not> cutoff_reached b c))
        \<and> (\<exists>b. get k = Page b \<and> b \<noteq> [] \<and> cutoff_reached b c)
        \<and> res = acc @ concat (map (\<lambda>j. batch_of (get j)) [i ..< Suc k]))"
proof (induction get mp c pw i acc rule: scrape_loop.induct)
  case (1 get mp c pw i acc)
  let ?L = "\<lambda>i acc. scrape_loop get mp c pw i acc = (StopCutoff, res)"
  let ?R = "\<lambda>i acc k. i \<le> k \<and> k \<le> mp
        \<and> (\<forall>j. i \<le> j \<and> j < k \<longrightarrow> (\<exists>b. get j = Page b \<and> b \<noteq> [] \<and> \<not> cutoff_reached b c))
        \<and> (\<exists>b. get k = Page b \<and> b \<noteq> [] \<and> cutoff_reached b c)
        \<and> res = acc @ concat (map (\<lambda>j. batch_of (get j)) [i ..< Suc k])"
  show ?case
  proof (cases "i \<le> mp")
    case False
    then show ?thesis by (subst scrape_loop.simps) auto
  next
    case le: True
    show ?thesis
    proof (cases "\<exists>b. get i = Page b \<and> b \<noteq> []")
      case False
      then have "get i = FetchFailed \<or> get i = JsShell \<or> get i = Page []"
        by (cases "get i") auto
      then have "\<not> ?L i acc"
      proof (elim disjE)
        assume "get i = FetchFailed"
        then show ?thesis using le by (subst scrape_loop.simps) simp
      next
        assume "get i = JsShell"
        then show ?thesis using le by (subst scrape_loop.simps) simp
      next
        assume "get i = Page []"
        then show ?thesis using le by (subst scrape_loop.simps) simp
      qed
      moreover have "\<not> (\<exists>k. ?R i acc k)"
      proof
        assume "\<exists>k. ?R i acc k"
        then obtain k where k: "?R i acc k" ..
        then show False using False by (cases "k = i") auto
      qed
      ultimately show ?thesis by blast
    next
      case True
      then obtain b where b: "get i = Page b" "b \<noteq> []" by blast
      show ?thesis
      proof (cases "cutoff_reached b c")
        case hit: True
        have L: "?L i acc \<longleftrightarrow> res = acc @ b"
          using le b hit by (subst scrape_loop.simps) auto
        have R: "(\<exists>k. ?R i acc k) \<longleftrightarrow> res = acc @ b"
        proof
          assume "\<exists>k. ?R i acc k"
          then obtain k where k: "?R i acc k" ..
          have "k = i"
          proof (rule ccontr)
            assume "k \<noteq> i"
            with k have "i \<le> i \<and> i < k" by auto
            with k have "\<exists>b'. get i = Page b' \<and> b' \<noteq> [] \<and> \<not> cutoff_reached b' c" by blast
            with b hit show False by auto
          qed
          with k b show "res = acc @ b" by (simp add: batch_of_def)
        next
          assume "res = acc @ b"
          with le b hit have "?R i acc i" by (auto simp: batch_of_def)
          then show "\<exists>k. ?R i acc k" ..
        qed
        show ?thesis using L R by blast
      next
        case miss: False
        have L: "?L i acc \<longleftrightarrow> ?L (i + 1) (acc @ b)"
          using le b miss by (subst scrape_loop.simps) auto
        have IH: "?L (i + 1) (acc @ b) \<longleftrightarrow> (\<exists>k. ?R (i + 1) (acc @ b) k)"
          using "1.IH" [OF le b(1) b(2) miss] .
        have R: "(\<exists>k. ?R i acc k) \<longleftrightarrow> (\<exists>k. ?R (i + 1) (acc @ b) k)"
        proof
          assume "\<exists>k. ?R i acc k"
          then obtain k where k: "?R i acc k" ..
          have "k \<noteq> i" using k b miss by auto
          with k have ik: "i + 1 \<le> k" by auto
          then have upt: "[i ..< Suc k] = i # [i + 1 ..< Suc k]"
            by (simp add: upt_conv_Cons)
          have "?R (i + 1) (acc @ b) k"
            using k ik b unfolding upt by (simp add: batch_of_def)
          then show "\<exists>k. ?R (i + 1) (acc @ b) k" ..
        next
          assume "\<exists>k. ?R (i + 1) (acc @ b) k"
          then obtain k where k: "?R (i + 1) (acc @ b) k" ..
          then have ik: "i + 1 \<le> k" by auto
          then have upt: "[i ..< Suc k] = i # [i + 1 ..< Suc k]"
            by (simp add: upt_conv_Cons)
          have ok: "\<forall>j. i \<le> j \<and> j < k \<longrightarrow> (\<exists>b. get j = Page b \<and> b \<noteq> [] \<and> \<not> cutoff_reached b c)"
          proof (intro allI impI)
            fix j assume j: "i \<le> j \<and> j < k"
            show "\<exists>b. get j = Page b \<and> b \<noteq> [] \<and> \<not> cutoff_reached b c"
            proof (cases "j = i")
              case True
              with b miss show ?thesis by auto
            next
              case False
              with j have "i + 1 \<le> j \<and> j < k" by auto
              with k show ?thesis by blast
            qed
          qed
          have "?R i acc k"
            using k ik b ok unfolding upt by (simp add: batch_of_def)
          then show "\<exists>k. ?R i acc k" ..
        qed
        show ?thesis using L IH R by blast
      qed
    qed
  qed
qed


text \<open>
  C8 (as amended). For every page sequence, the pagination loop of the CPPP and of the
  defproc adapter stops on the lookback cutoff exactly when some page \<open>k\<close> within the
  page cap is reached through non-empty batches that did not hit the cutoff, and the batch
  of page \<open>k\<close> is non-empty and holds a tender whose publish date, or whose deadline
  when it has no publish date, precedes the cutoff date. The batch of page \<open>k\<close> is
  then included: the result is the batches of pages 1 to \<open>k\<close>, in order.
\<close>

theorem cutoff_stop:
  "(CpppScraper_scrape get max_pages cutoff_date playwright = (StopCutoff, res) \<longleftrightarrow>
      (\<exists>k. 1 \<le> k \<and> k \<le> max_pages
         \<and> (\<forall>i. 1 \<le> i \<and> i < k \<longrightarrow>
               (\<exists>b. get i = Page b \<and> b \<noteq> [] \<and> \<not> cutoff_reached b cutoff_date))
         \<and> (\<exists>b. get k = Page b \<and> b \<noteq> [] \<and> cutoff_reached b cutoff_date)
         \<and> res = concat (map (\<lambda>i. batch_of (get i)) [1 ..< Suc k])))
   \<and> (DefprocScraper_scrape get max_pages cutoff_date playwright = (StopCutoff, res) \<longleftrightarrow>
      (\<exists>k. 1 \<le> k \<and> k \<le> max_pages
         \<and> (\<forall>i. 1 \<le> i \<and> i < k \<longrightarrow>
               (\<exists>b. get i = Page b \<and> b \<noteq> [] \<and> \<not> cutoff_reached b cutoff_date))
         \<and> (\<exists>b. get k = Page b \<and> b \<noteq> [] \<and> cutoff_reached b cutoff_date)
         \<and> res = concat (map (\<lambda>i. batch_of (get i)) [1 ..< Suc k])))
   \<and> cutoff_reached batch cutoff_date =
       (\<exists>t \<in> set batch.
          case published_date t of
            Some d \<Rightarrow> d < cutoff_date
          | None \<Rightarrow> (case deadline t of Some d \<Rightarrow> d < cutoff_date | None \<Rightarrow> False))"
  unfolding CpppScraper_scrape_def DefprocScraper_scrape_def
  using scrape_loop_cutoff [of get max_pages cutoff_date playwright 1 "[]" res]
    cutoff_reached_iff [of batch cutoff_date]
  by simp

text \<open>
  Page 1 is recent, page 2 holds a deadline before the cutoff: both pages are returned
  and page 3 is never requested.
\<close>

theorem cutoff_stop_witness:
  "CpppScraper_scrape
     (\<lambda>i. if i = 1 then Page [Tender\<lparr>tender_id := ''T1'', published_date := Some 10\<rparr>]
          else if i = 2 then Page [Tender\<lparr>tender_id := ''T2'', deadline := Some 3\<rparr>]
          else Page [Tender\<lparr>tender_id := ''T3'', published_date := Some 1\<rparr>])
     20 5 []
   = (StopCutoff, [Tender\<lparr>tender_id := ''T1'', published_date := Some 10\<rparr>,
                   Tender\<lparr>tender_id := ''T2'', deadline := Some 3\<rparr>])"
proof -
  let ?get = "\<lambda>i::nat. if i = 1 then Page [Tender\<lparr>tender_id := ''T1'', published_date := Some 10\<rparr>]
          else if i = 2 then Page [Tender\<lparr>tender_id := ''T2'', deadline := Some 3\<rparr>]
          else Page [Tender\<lparr>tender_id := ''T3'', published_date := Some 1\<rparr>]"
  let ?res = "[Tender\<lparr>tender_id := ''T1'', published_date := Some 10\<rparr>,
               Tender\<lparr>tender_id := ''T2'', deadline := Some 3\<rparr>]"
  have p1: "\<not> cutoff_reached [Tender\<lparr>tender_id := ''T1'', published_date := Some 10\<rparr>] 5"
    by code_simp
  have p2: "cutoff_reached [Tender\<lparr>tender_id := ''T2'', deadline := Some 3\<rparr>] 5"
    by code_simp
  have first: "\<forall>i. 1 \<le> i \<and> i < 2 \<longrightarrow> (\<exists>b. ?get i = Page b \<and> b \<noteq> [] \<and> \<not> cutoff_reached b 5)"
  proof (intro allI impI)
    fix i :: nat assume "1 \<le> i \<and> i < 2"
    then have "i = 1" by simp
    then show "\<exists>b. ?get i = Page b \<and> b \<noteq> [] \<and> \<not> cutoff_reached b 5"
      using p1 by simp
  qed
  have second: "\<exists>b. ?get 2 = Page b \<and> b \<noteq> [] \<and> cutoff_reached b 5"
    using p2 by simp
  have pages: "?res = concat (map (\<lambda>i. batch_of (?get i)) [1 ..< Suc 2])"
    by (simp add: batch_of_def upt_rec)
  have "\<exists>k. 1 \<le> k \<and> k \<le> (20::nat)
         \<and> (\<forall>i. 1 \<le> i \<and> i < k \<longrightarrow> (\<exists>b. ?get i = Page b \<and> b \<noteq> [] \<and> \<not> cutoff_reached b 5))
         \<and> (\<exists>b. ?get k = Page b \<and> b \<noteq> [] \<and> cutoff_reached b 5)
         \<and> ?res = concat (map (\<lambda>i. batch_of (?get i)) [1 ..< Suc k])"
    using first second pages by (intro exI [of _ 2]) simp
  then show ?thesis
    using cutoff_stop [of ?get 20 5 "[]" ?res] by blast
qed

text \<open>
  A tender with a recent publish date and a deadline before the cutoff: the earliest of
  all dates of the batch precedes the cutoff, yet the loop goes on to the next pages.
\<close>

theorem cutoff_earliest_counterexample:
  "earliest_precedes [Tender\<lparr>tender_id := ''T1'', published_date := Some 10, deadline := Some 3\<rparr>] 5
   \<and> CpppScraper_scrape
       (\<lambda>i. if i = 1
             then Page [Tender\<lparr>tender_id := ''T1'', published_date := Some 10, deadline := Some 3\<rparr>]
           else if i = 2 then Page [Tender\<lparr>tender_id := ''T2'', published_date := Some 8\<rparr>]
           else Page [])
       20 5 []
     = (StopEmpty, [Tender\<lparr>tender_id := ''T1'', published_date := Some 10, deadline := Some 3\<rparr>,
                    Tender\<lparr>tender_id := ''T2'', published_date := Some 8\<rparr>])
   \<and> DefprocScraper_scrape
       (\<lambda>i. if i = 1
             then Page [Tender\<lparr>tender_id := ''T1'', published_date := Some 10, deadline := Some 3\<rparr>]
           else if i = 2 then Page [Tender\<lparr>tender_id := ''T2'', published_date := Some 8\<rparr>]
           else Page [])
       20 5 []
     = (StopEmpty, [Tender\<lparr>tender_id := ''T1'', published_date := Some 10, deadline := Some 3\<rparr>,
                    Tender\<lparr>tender_id := ''T2'', published_date := Some 8\<rparr>])"
  by code_simp

section \<open>Properties of the deduplicating merges\<close>

lemma set_keep_first: "set (keep_first key xs) \<subseteq> set xs"
  by (induction key xs rule: keep_first.induct) auto

lemma keys_keep_first: "key ` set (keep_first key xs) = key ` set xs"
proof (induction key xs rule: keep_first.induct)
  case (1 key)
  then show ?case by simp
next
  case (2 key x xs)
  then show ?case by (auto simp: image_iff)
qed

lemma distinct_keep_first: "distinct (map key (keep_first key xs))"
proof (induction key xs rule: keep_first.induct)
  case (1 key)
  then show ?case by simp
next
  case (2 key x xs)
  have "key x \<notin> key ` set (keep_first key (filter (\<lambda>y. key y \<noteq> key x) xs))"
    using set_keep_first [of key "filter (\<lambda>y. key y \<noteq> key x) xs"] by auto
  with 2 show ?case by simp
qed

lemma subseq_keep_first: "subseq (keep_first key xs) xs"
proof (induction key xs rule: keep_first.induct)
  case (1 key)
  then show ?case by simp
next
  case (2 key x xs)
  have "subseq (filter (\<lambda>y. key y \<noteq> key x) xs) xs"
    by simp
  with 2 have "subseq (keep_first key (filter (\<lambda>y. key y \<noteq> key x) xs)) xs"
    using subseq_order.trans by blast
  then show ?case by simp
qed

lemma keep_first_distinct: "distinct (map key xs) \<Longrightarrow> keep_first key xs = xs"
proof (induction key xs rule: keep_first.induct)
  case (1 key)
  then show ?case by simp
next
  case (2 key x xs)
  from "2.prems" have "\<forall>y \<in> set xs. key y \<noteq> key x"
    by (metis distinct.simps(2) image_eqI list.simps(9) set_map)
  then have f: "filter (\<lambda>y. key y \<noteq> key x) xs = xs"
    by (simp add: filter_id_conv)
  with 2 show ?case by simp
qed

lemma find_keep_first:
  "t \<in> set xs \<Longrightarrow> \<exists>u \<in> set (keep_first key xs). find (\<lambda>v. key v = key t) xs = Some u"
proof (induction key xs rule: keep_first.induct)
  case (1 key)
  then show ?case by simp
next
  case (2 key x xs)
  show ?case
  proof (cases "key x = key t")
    case True
    then show ?thesis by simp
  next
    case False
    with "2.prems" have t: "t \<in> set (filter (\<lambda>y. key y \<noteq> key x) xs)"
      by auto
    have "find (\<lambda>v. key v = key t) (filter (\<lambda>y. key y \<noteq> key x) ys) = find (\<lambda>v. key v = key t) ys" for ys
      using False by (induction ys) auto
    with "2.IH" [OF t] False show ?thesis by auto
  qed
qed

lemma hsl_dedup_keep_first:
  "hsl_dedup ts seen unique =
     unique @ keep_first dedup_key (filter (\<lambda>t. dedup_key t \<notin> seen) ts)"
proof (induction ts arbitrary: seen unique rule: length_induct)
  case (1 ts)
  show ?case
  proof (cases ts)
    case Nil
    then show ?thesis by simp
  next
    case (Cons t ts')
    have step: "hsl_dedup ts' s u = u @ keep_first dedup_key (filter (\<lambda>t. dedup_key t \<notin> s) ts')" for s u
      using 1 Cons by simp
    have "filter (\<lambda>y. dedup_key y \<noteq> dedup_key t) (filter (\<lambda>t. dedup_key t \<notin> seen) ts')
          = filter (\<lambda>u. dedup_key u \<notin> insert (dedup_key t) seen) ts'"
      by (auto intro: filter_cong)
    then show ?thesis
      unfolding Cons by (simp add: step Let_def)
  qed
qed

lemma gem_collect_keep_first:
  "gem_collect batch (tenders, seen_ids) =
     (tenders @ keep_first tender_id
                  (filter (\<lambda>t. tender_id t \<noteq> [] \<and> tender_id t \<notin> seen_ids) batch),
      seen_ids \<union> {i \<in> tender_id ` set batch. i \<noteq> []})"
proof (induction batch arbitrary: tenders seen_ids)
  case Nil
  then show ?case by simp
next
  case (Cons t batch)
  have "filter (\<lambda>y. tender_id y \<noteq> tender_id t)
          (filter (\<lambda>t. tender_id t \<noteq> [] \<and> tender_id t \<notin> seen_ids) batch)
        = filter (\<lambda>u. tender_id u \<noteq> [] \<and> tender_id u \<notin> insert (tender_id t) seen_ids) batch"
    by (auto intro: filter_cong)
  then show ?case
    by (auto simp: Cons)
qed


lemma hsl_dedup_start: "hsl_dedup ts {} [] = keep_first dedup_key ts"
  by (simp add: hsl_dedup_keep_first)

lemma gem_collect_start:
  "fst (gem_collect batch ([], {})) = keep_first tender_id (filter (\<lambda>t. tender_id t \<noteq> []) batch)"
  by (simp add: gem_collect_keep_first)

text \<open>
  C9 (as amended). The merge of \<open>HslScraper.scrape\<close> deduplicates with key
  \<open>tender_id\<close> if non-empty, else \<open>title\<close>: the result has pairwise different keys,
  is a subsequence of the input (order preserved), holds for every input record the first
  input record with its key, and the merge returns an already deduplicated list unchanged.
  Two records with the same non-empty \<open>tender_id\<close> collapse to the first, in the HSL
  merge and in the GeM merge. The GeM merge keys on \<open>tender_id\<close> alone: records with an
  empty \<open>tender_id\<close> are dropped, and on the others it is the same first-seen-wins,
  order-preserving, idempotent deduplication.
\<close>

theorem dedup_first_seen:
  "(let ts = nic @ main_site; r = HslScraper_scrape nic main_site
    in distinct (map dedup_key r) \<and> subseq r ts
     \<and> (\<forall>t \<in> set ts. \<exists>u \<in> set r. find (\<lambda>v. dedup_key v = dedup_key t) ts = Some u)
     \<and> hsl_dedup r {} [] = r
     \<and> (distinct (map dedup_key ts) \<longrightarrow> r = ts))
   \<and> (tender_id a \<noteq> [] \<and> tender_id a = tender_id b \<longrightarrow>
        HslScraper_scrape [a] [b] = [a] \<and> fst (gem_collect [a, b] ([], {})) = [a])
   \<and> (let ts = filter (\<lambda>t. tender_id t \<noteq> []) batch; g = fst (gem_collect batch ([], {}))
      in distinct (map tender_id g) \<and> subseq g ts
       \<and> (\<forall>t \<in> set ts. \<exists>u \<in> set g. find (\<lambda>v. tender_id v = tender_id t) ts = Some u)
       \<and> fst (gem_collect g ([], {})) = g)"
proof -
  let ?ts = "nic @ main_site"
  let ?r = "keep_first dedup_key ?ts"
  have hsl: "HslScraper_scrape nic main_site = ?r"
    by (simp add: HslScraper_scrape_def hsl_dedup_start)
  have h1: "distinct (map dedup_key ?r)"
    by (rule distinct_keep_first)
  have h2: "subseq ?r ?ts"
    by (rule subseq_keep_first)
  have h3: "\<forall>t \<in> set ?ts. \<exists>u \<in> set ?r. find (\<lambda>v. dedup_key v = dedup_key t) ?ts = Some u"
    using find_keep_first [of _ ?ts dedup_key] by blast
  have h4: "hsl_dedup ?r {} [] = ?r"
    unfolding hsl_dedup_start using h1 by (rule keep_first_distinct)
  have h5: "distinct (map dedup_key ?ts) \<longrightarrow> ?r = ?ts"
    using keep_first_distinct [of dedup_key ?ts] by blast
  have pair: "tender_id a \<noteq> [] \<and> tender_id a = tender_id b \<longrightarrow>
        HslScraper_scrape [a] [b] = [a] \<and> fst (gem_collect [a, b] ([], {})) = [a]"
    by (simp add: HslScraper_scrape_def dedup_key_def Let_def)
  let ?us = "filter (\<lambda>t. tender_id t \<noteq> []) batch"
  let ?g = "keep_first tender_id ?us"
  have g1: "distinct (map tender_id ?g)"
    by (rule distinct_keep_first)
  have g2: "subseq ?g ?us"
    by (rule subseq_keep_first)
  have g3: "\<forall>t \<in> set ?us. \<exists>u \<in> set ?g. find (\<lambda>v. tender_id v = tender_id t) ?us = Some u"
    using find_keep_first [of _ ?us tender_id] by blast
  have "set ?g \<subseteq> set ?us"
    by (rule set_keep_first)
  then have "filter (\<lambda>t. tender_id t \<noteq> []) ?g = ?g"
    by (auto simp: filter_id_conv)
  then have g4: "fst (gem_collect ?g ([], {})) = ?g"
    unfolding gem_collect_start using g1 by (simp add: keep_first_distinct)
  show ?thesis
    unfolding Let_def hsl gem_collect_start
    using h1 h2 h3 h4 h5 pair g1 g2 g3 g4 [unfolded gem_collect_start]
    unfolding hsl gem_collect_start by blast
qed

text \<open>
  A tender and its corrigendum under the same identifier: the first is kept.
\<close>

theorem dedup_first_seen_witness:
  "tender_id (Tender\<lparr>tender_id := ''HSL/21'', title := ''Hull painting''\<rparr>) \<noteq> []
   \<and> tender_id (Tender\<lparr>tender_id := ''HSL/21'', title := ''Hull painting''\<rparr>)
       = tender_id (Tender\<lparr>tender_id := ''HSL/21'', title := ''Painting of hull (corrigendum)''\<rparr>)
   \<and> HslScraper_scrape [Tender\<lparr>tender_id := ''HSL/21'', title := ''Hull painting''\<rparr>]
        [Tender\<lparr>tender_id := ''HSL/21'', title := ''Painting of hull (corrigendum)''\<rparr>]
       = [Tender\<lparr>tender_id := ''HSL/21'', title := ''Hull painting''\<rparr>]
   \<and> fst (gem_collect [Tender\<lparr>tender_id := ''HSL/21'', title := ''Hull painting''\<rparr>,
                        Tender\<lparr>tender_id := ''HSL/21'', title := ''Painting of hull (corrigendum)''\<rparr>]
             ([], {}))
       = [Tender\<lparr>tender_id := ''HSL/21'', title := ''Hull painting''\<rparr>]"
proof -
  let ?a = "Tender\<lparr>tender_id := ''HSL/21'', title := ''Hull painting''\<rparr>"
  let ?b = "Tender\<lparr>tender_id := ''HSL/21'', title := ''Painting of hull (corrigendum)''\<rparr>"
  have h: "tender_id ?a \<noteq> [] \<and> tender_id ?a = tender_id ?b"
    by (simp add: Tender_def)
  show ?thesis
    using h dedup_first_seen [where a = ?a and b = ?b] by blast
qed

text \<open>
  Two records without identifier and with different titles: the GeM merge drops both,
  where a key falling back on the title keeps both, as the HSL merge does.
\<close>

theorem gem_empty_id_counterexample:
  "fst (gem_collect [Tender\<lparr>title := ''Supply of paint''\<rparr>, Tender\<lparr>title := ''Supply of rope''\<rparr>]
          ([], {})) = []
   \<and> HslScraper_scrape [Tender\<lparr>title := ''Supply of paint''\<rparr>]
        [Tender\<lparr>title := ''Supply of rope''\<rparr>]
       = [Tender\<lparr>title := ''Supply of paint''\<rparr>, Tender\<lparr>title := ''Supply of rope''\<rparr>]"
  by code_simp

end
